theory Spec2Isabelle
  imports Main "HOL-Library.Multiset" "HOL-Library.Sublist"
begin

section \<open>Data model of package tool\<close>

text \<open>
  A Go value of type \<open>any\<close>, as far as the executor looks inside one: the type assertions
  of \<open>ValidateInput\<close> (\<open>[]string\<close>, \<open>[]any\<close>, \<open>string\<close>) and of \<open>approved\<close> (\<open>bool\<close>)
  each pick one constructor. \<open>ANil\<close> is the nil interface value.
\<close>

datatype any =
    ANil
  | ABool bool
  | AInt int
  | AString string
  | AStrings "string list"
  | ASlice "any list"
  | AMap "(string \<times> any) list"

text \<open>
  Go errors. \<open>Canceled\<close> and \<open>DeadlineExceeded\<close> are the two values \<open>ctx.Err()\<close> may return,
  \<open>Errorf\<close> is an error built by \<open>fmt.Errorf\<close> (or any error of a capability) carrying its
  message, \<open>ToolNotFoundError\<close> is the registry's error type with its \<open>Name\<close> field.
  A nil error is \<open>None\<close> of \<open>error option\<close>.
\<close>

datatype error =
    Canceled
  | DeadlineExceeded
  | Errorf string
  | ToolNotFoundError string

text \<open>The method \<open>err.Error()\<close>.\<close>

fun Error_of :: "error \<Rightarrow> string" where
  "Error_of Canceled = ''context canceled''"
| "Error_of DeadlineExceeded = ''context deadline exceeded''"
| "Error_of (Errorf msg) = msg"
| "Error_of (ToolNotFoundError name) = ''tool not found: '' @ name"

text \<open>
  \<open>time.Duration\<close> and \<open>time.Time\<close> are counted in nanoseconds (\<open>int\<close>). The field
  \<open>BackoffMultiplier\<close> (a \<open>float64\<close>) of \<open>RetryPolicy\<close> is only read by \<open>calculateBackoff\<close>,
  whose floating-point value decides no branch of the executor; it is left out.
\<close>

definition Second :: int where
  "Second = 1000000000"

record RetryPolicy =
  MaxRetries :: int
  InitialBackoff :: int
  MaxBackoff :: int
  RetryableErrors :: "string list"

record ToolContext =
  AgentID :: string
  SessionID :: string
  ExecutionID :: string
  Metadata :: "string \<rightharpoonup> any"

text \<open>The methods that \<open>EnhancedTool\<close> adds to \<open>Tool\<close>.\<close>

record EnhancedTool =
  IsLongRunning :: bool
  Timeout :: int
  Priority :: int
  RequiresApproval :: bool
  RetryPolicy :: "RetryPolicy option"

text \<open>
  A value of interface type \<open>Tool\<close>. \<open>InputSchema\<close> is \<open>None\<close> for a nil map.
  \<open>Enhanced\<close> is the outcome of the type assertion \<open>req.Tool.(EnhancedTool)\<close>: \<open>None\<close>
  when the tool implements only \<open>Tool\<close>. A capability has state of its own, so
  \<open>ToolExecute t k execCtx input tc\<close> is what the \<open>k\<close>-th invocation (counted from 0) of
  \<open>t.Execute\<close> within one call of the executor returns: the pair \<open>(output, err)\<close>.
  \<open>execCtx\<close> is \<open>Some d\<close> for \<open>context.WithTimeout(ctx, d)\<close> and \<open>None\<close> for the caller's
  \<open>ctx\<close> itself.
\<close>

record Tool =
  Name :: string
  InputSchema :: "(string \<rightharpoonup> any) option"
  ToolExecute :: "nat \<Rightarrow> int option \<Rightarrow> (string \<rightharpoonup> any) \<Rightarrow> ToolContext option \<Rightarrow> any \<times> error option"
  Enhanced :: "EnhancedTool option"

record ExecutorConfig =
  MaxConcurrency :: int
  DefaultTimeout :: int

text \<open>\<open>semaphore\<close> is the capacity of the channel made by \<open>NewExecutor\<close>.\<close>

record Executor =
  config :: ExecutorConfig
  semaphore :: int

record ExecuteRequest =
  Tool :: Tool
  Input :: "string \<rightharpoonup> any"
  Context :: "ToolContext option"
  TimeoutOverride :: int

record ExecuteResult =
  Success :: bool
  Output :: any
  Error :: "error option"
  Duration :: int
  StartedAt :: int
  FinishedAt :: int
  Attempts :: int
  LongRunning :: bool

section \<open>helpers.go: ValidateInput\<close>

text \<open>The loop \<open>for _, v := range raw\<close> keeping the elements that are strings.\<close>

fun string_elems :: "any list \<Rightarrow> string list" where
  "string_elems [] = []"
| "string_elems (AString s # raw) = s # string_elems raw"
| "string_elems (v # raw) = string_elems raw"

text \<open>The value of \<open>required\<close> after the two type assertions on \<open>schema["required"]\<close>.\<close>

definition required_fields :: "(string \<rightharpoonup> any) \<Rightarrow> string list" where
  "required_fields schema =
     (case schema ''required'' of
        Some (AStrings ss) \<Rightarrow> ss
      | Some (ASlice raw) \<Rightarrow> string_elems raw
      | _ \<Rightarrow> [])"

text \<open>The loop \<open>for _, field := range required\<close>, returning at the first missing key.\<close>

fun check_required :: "string list \<Rightarrow> (string \<rightharpoonup> any) \<Rightarrow> error option" where
  "check_required [] input = None"
| "check_required (field # required) input =
     (if input field = None then Some (Errorf (''missing required field: '' @ field))
      else check_required required input)"

definition ValidateInput :: "Tool \<Rightarrow> (string \<rightharpoonup> any) \<Rightarrow> error option" where
  "ValidateInput tool input =
     (case InputSchema tool of
        None \<Rightarrow> None
      | Some schema \<Rightarrow> check_required (required_fields schema) input)"

section \<open>executor.go\<close>

text \<open>
  The source holds two versions of this file. The one embedded here is the fuller one,
  with the approval gate, long-running tools and priorities in \<open>ExecuteBatch\<close>; the
  other has the same slot acquisition, validation, timeout override and attempt loop,
  and none of those three.
\<close>

definition NewExecutor :: "ExecutorConfig \<Rightarrow> Executor" where
  "NewExecutor cfg =
     (let cfg1 = (if MaxConcurrency cfg \<le> 0 then cfg\<lparr>MaxConcurrency := 5\<rparr> else cfg);
          cfg2 = (if DefaultTimeout cfg1 \<le> 0 then cfg1\<lparr>DefaultTimeout := 60 * Second\<rparr> else cfg1)
      in \<lparr>config = cfg2, semaphore = MaxConcurrency cfg2\<rparr>)"

text \<open>\<open>strings.Contains(s, substr)\<close>: some suffix of \<open>s\<close> starts with \<open>substr\<close>.\<close>

fun Contains :: "string \<Rightarrow> string \<Rightarrow> bool" where
  "Contains [] substr = (substr = [])"
| "Contains (c # s) substr = (if prefix substr (c # s) then True else Contains s substr)"

fun matches_any :: "string \<Rightarrow> string list \<Rightarrow> bool" where
  "matches_any errStr [] = False"
| "matches_any errStr (pattern # patterns) =
     (if Contains errStr pattern then True else matches_any errStr patterns)"

definition isRetryable :: "error \<Rightarrow> RetryPolicy option \<Rightarrow> bool" where
  "isRetryable err policy =
     (case policy of
        None \<Rightarrow> True
      | Some p \<Rightarrow>
          if length (RetryableErrors p) = 0 then True
          else matches_any (Error_of err) (RetryableErrors p))"

definition approved :: "ToolContext option \<Rightarrow> bool" where
  "approved tc =
     (case tc of
        None \<Rightarrow> False
      | Some c \<Rightarrow> (case Metadata c ''approved'' of Some (ABool v) \<Rightarrow> v | _ \<Rightarrow> False))"

text \<open>
  What one call of \<open>Execute\<close> takes from outside the program: the two readings of
  \<open>time.Now()\<close> (on entry, and when the result is built), which branch each \<open>select\<close> takes
  (\<open>slot_cancelled\<close>: \<open>ctx.Done()\<close> fires before a slot of the semaphore is free;
  \<open>backoff_cancelled k\<close>: \<open>ctx.Done()\<close> fires before the timer of the wait that follows
  attempt \<open>k\<close>), and the error \<open>ctx.Err()\<close> returns once \<open>ctx.Done()\<close> is closed, which
  the contract of \<open>context.Context\<close> makes non-nil.
\<close>

record Env =
  now_start :: int
  now_end :: int
  slot_cancelled :: bool
  backoff_cancelled :: "nat \<Rightarrow> bool"
  ctx_err :: error

text \<open>
  What the call does to the outside, in order: \<open>Invoke k execCtx\<close> is the \<open>k\<close>-th invocation
  of the capability's \<open>Execute\<close> with the attempt's context, \<open>Backoff k\<close> is the wait entered
  after attempt \<open>k\<close> failed (its length, \<open>calculateBackoff(k, retryPolicy)\<close>, is
  floating-point arithmetic and is not computed here).
\<close>

datatype event = Invoke nat "int option" | Backoff nat

fun is_Invoke :: "event \<Rightarrow> bool" where
  "is_Invoke (Invoke k c) = True"
| "is_Invoke (Backoff k) = False"

definition invocations :: "event list \<Rightarrow> nat" where
  "invocations tr = length (filter is_Invoke tr)"

text \<open>\<open>t.Sub(u)\<close> of package time: the difference, saturated to the range of a Duration.\<close>

definition maxDuration :: int where
  "maxDuration = 2 ^ 63 - 1"

definition minDuration :: int where
  "minDuration = - (2 ^ 63)"

definition Sub :: "int \<Rightarrow> int \<Rightarrow> int" where
  "Sub t u =
     (let d = t - u
      in if d > maxDuration then maxDuration else if d < minDuration then minDuration else d)"

text \<open>Addition of Go's 64-bit \<open>int\<close>, wrapping around.\<close>

definition int64 :: "int \<Rightarrow> int" where
  "int64 x = (x + 2 ^ 63) mod 2 ^ 64 - 2 ^ 63"

text \<open>
  Step 3 of \<open>Execute\<close>, "Determine config": the values of \<open>timeout\<close>, \<open>retryPolicy\<close>,
  \<open>longRunning\<close> and \<open>requiresApproval\<close> after the request override has been applied.
\<close>

definition determine_config ::
  "Executor \<Rightarrow> ExecuteRequest \<Rightarrow> int \<times> RetryPolicy option \<times> bool \<times> bool" where
  "determine_config e req =
     (let timeout0 = DefaultTimeout (config e);
          (timeout1, retryPolicy, longRunning, requiresApproval) =
            (case Enhanced (Tool req) of
               None \<Rightarrow> (timeout0, None, False, False)
             | Some et \<Rightarrow>
                 (let t1 = (if Timeout et > 0 then Timeout et else timeout0);
                      t2 = (if IsLongRunning et \<and> Timeout et = 0 \<and> TimeoutOverride req = 0
                            then 0 else t1)
                  in (t2, RetryPolicy et, IsLongRunning et, RequiresApproval et)));
          timeout = (if TimeoutOverride req > 0 then TimeoutOverride req else timeout1)
      in (timeout, retryPolicy, longRunning, requiresApproval))"

text \<open>
  Step 4, the loop \<open>for attempt := 0; attempt < maxAttempts; attempt++\<close>, on the state
  \<open>(output, execErr, attempts)\<close> and the events so far. \<open>attempt_body\<close> is one pass
  through the body: it ends in \<open>Break\<close> at a \<open>break\<close> or at \<open>goto Finish\<close> (both leave
  the loop for the label \<open>Finish\<close>), and in \<open>Continue\<close> at \<open>continue\<close> or at the end of
  the body, after which the loop goes on with \<open>attempt + 1\<close>.
\<close>

datatype 'a ctl = Break 'a | Continue 'a

text \<open>"Create attempt context": \<open>timeout > 0\<close> layers a deadline on \<open>ctx\<close>.\<close>

definition attempt_ctx :: "int \<Rightarrow> int option" where
  "attempt_ctx timeout = (if timeout > 0 then Some timeout else None)"

text \<open>The call \<open>req.Tool.Execute(execCtx, req.Input, req.Context)\<close> of attempt \<open>attempt\<close>.\<close>

definition invoke :: "ExecuteRequest \<Rightarrow> int \<Rightarrow> nat \<Rightarrow> any \<times> error option" where
  "invoke req timeout attempt =
     ToolExecute (Tool req) attempt (attempt_ctx timeout) (Input req) (Context req)"

definition attempt_body ::
  "Env \<Rightarrow> ExecuteRequest \<Rightarrow> int \<Rightarrow> RetryPolicy option \<Rightarrow> int \<Rightarrow> nat \<Rightarrow>
   any \<times> error option \<times> int \<times> event list \<Rightarrow> (any \<times> error option \<times> int \<times> event list) ctl" where
  "attempt_body env req timeout retryPolicy maxAttempts attempt st =
     (let attempts = int attempt + 1;
          res = invoke req timeout attempt;
          tr = snd (snd (snd st)) @ [Invoke attempt (attempt_ctx timeout)]
      in case snd res of
           None \<Rightarrow> Break (fst res, None, attempts, tr)
         | Some execErr \<Rightarrow>
             if int attempt < maxAttempts - 1 then
               (if \<not> isRetryable execErr retryPolicy
                then Break (fst res, Some execErr, attempts, tr)
                else if backoff_cancelled env attempt
                then Break (fst res, Some (ctx_err env), attempts, tr @ [Backoff attempt])
                else Continue (fst res, Some execErr, attempts, tr @ [Backoff attempt]))
             else Continue (fst res, Some execErr, attempts, tr))"

function attempt_loop ::
  "Env \<Rightarrow> ExecuteRequest \<Rightarrow> int \<Rightarrow> RetryPolicy option \<Rightarrow> int \<Rightarrow> nat \<Rightarrow>
   any \<times> error option \<times> int \<times> event list \<Rightarrow> any \<times> error option \<times> int \<times> event list" where
  "attempt_loop env req timeout retryPolicy maxAttempts attempt st =
     (if int attempt < maxAttempts then
        (case attempt_body env req timeout retryPolicy maxAttempts attempt st of
           Break st' \<Rightarrow> st'
         | Continue st' \<Rightarrow>
             attempt_loop env req timeout retryPolicy maxAttempts (attempt + 1) st')
      else st)"
  by pat_completeness auto
termination
  by (relation "measure (\<lambda>(env, req, timeout, retryPolicy, maxAttempts, attempt, st).
        nat (maxAttempts - int attempt))") auto

declare attempt_loop.simps [simp del]

text \<open>\<open>maxAttempts := 1; if retryPolicy != nil { maxAttempts += retryPolicy.MaxRetries }\<close>\<close>

definition max_attempts :: "RetryPolicy option \<Rightarrow> int" where
  "max_attempts retryPolicy =
     (case retryPolicy of None \<Rightarrow> 1 | Some p \<Rightarrow> int64 (1 + MaxRetries p))"

text \<open>
  \<open>Execute\<close>, returning the result together with the events of the call. The three early
  returns build the result literally as the source does: a field the literal does not
  name has Go's zero value.
\<close>

definition Execute :: "Executor \<Rightarrow> Env \<Rightarrow> ExecuteRequest \<Rightarrow> ExecuteResult \<times> event list" where
  "Execute e env req =
     (let start = now_start env
      in if slot_cancelled env then
           (\<lparr>Success = False, Output = ANil, Error = Some (ctx_err env), Duration = 0,
             StartedAt = start, FinishedAt = now_end env, Attempts = 0, LongRunning = False\<rparr>, [])
         else
           (case ValidateInput (Tool req) (Input req) of
              Some err \<Rightarrow>
                (\<lparr>Success = False, Output = ANil, Error = Some err, Duration = 0,
                  StartedAt = start, FinishedAt = now_end env, Attempts = 0,
                  LongRunning = False\<rparr>, [])
            | None \<Rightarrow>
                (case determine_config e req of
                   (timeout, retryPolicy, longRunning, requiresApproval) \<Rightarrow>
                     if requiresApproval \<and> \<not> approved (Context req) then
                       (let err = Errorf (''tool '' @ Name (Tool req)
                                    @ '' requires approval before execution'');
                            end = now_end env
                        in (\<lparr>Success = False, Output = ANil, Error = Some err,
                              Duration = Sub end start, StartedAt = start, FinishedAt = end,
                              Attempts = 0, LongRunning = False\<rparr>, []))
                     else
                       (let maxAttempts = max_attempts retryPolicy
                        in case attempt_loop env req timeout retryPolicy maxAttempts 0
                                  (ANil, None, 0, []) of
                             (output, execErr, attempts, tr) \<Rightarrow>
                               (let end = now_end env
                                in (\<lparr>Success = (execErr = None), Output = output,
                                      Error = execErr, Duration = Sub end start,
                                      StartedAt = start, FinishedAt = end,
                                      Attempts = attempts, LongRunning = longRunning\<rparr>, tr))))))"

text \<open>
  \<open>sort.SliceStable(items, less)\<close>, with the comparison \<open>less\<close> passed as \<open>lessf\<close>: a
  stable sort, here by insertion. An element is put behind the elements that \<open>lessf\<close>
  orders strictly before it, and in front of every other element that followed it in
  the input.
\<close>

fun insert_stable :: "('a \<Rightarrow> 'a \<Rightarrow> bool) \<Rightarrow> 'a \<Rightarrow> 'a list \<Rightarrow> 'a list" where
  "insert_stable lessf x [] = [x]"
| "insert_stable lessf x (y # ys) =
     (if lessf y x then y # insert_stable lessf x ys else x # y # ys)"

definition SliceStable :: "('a \<Rightarrow> 'a \<Rightarrow> bool) \<Rightarrow> 'a list \<Rightarrow> 'a list" where
  "SliceStable lessf xs = foldr (insert_stable lessf) xs []"

text \<open>The local struct \<open>prioritized\<close> of \<open>ExecuteBatch\<close>.\<close>

record prioritized =
  idx :: nat
  req :: ExecuteRequest
  priority :: int

text \<open>The first loop of \<open>ExecuteBatch\<close>: one item per request, with the tool's priority.\<close>

definition batch_items :: "ExecuteRequest list \<Rightarrow> prioritized list" where
  "batch_items requests =
     map (\<lambda>(i, r). \<lparr>idx = i, req = r,
                     priority = (case Enhanced (Tool r) of None \<Rightarrow> 0 | Some et \<Rightarrow> Priority et)\<rparr>)
       (enumerate 0 requests)"

text \<open>The items after \<open>sort.SliceStable\<close>: the order in which the goroutines are started.\<close>

definition dispatch_order :: "ExecuteRequest list \<Rightarrow> prioritized list" where
  "dispatch_order requests =
     SliceStable (\<lambda>a b. priority a > priority b) (batch_items requests)"

text \<open>
  \<open>ExecuteBatch\<close>. Every goroutine runs \<open>e.Execute(ctx, item.req)\<close> and stores the result at
  \<open>results[item.idx]\<close>; \<open>wg.Wait()\<close> returns once all of them have done so. The goroutine of
  the request at index \<open>i\<close> meets the environment \<open>envs i\<close>, and \<open>completion\<close> turns the
  order in which the goroutines were started into the order in which they store their
  results. An entry of \<open>results\<close> is \<open>None\<close> while it holds the nil pointer. Every
  \<open>item.idx\<close> is an index of \<open>results\<close>, so no store is out of range.
\<close>

definition ExecuteBatch ::
  "Executor \<Rightarrow> (nat \<Rightarrow> Env) \<Rightarrow> (prioritized list \<Rightarrow> prioritized list) \<Rightarrow>
   ExecuteRequest list \<Rightarrow> ExecuteResult option list" where
  "ExecuteBatch e envs completion requests =
     (let results = replicate (length requests) None
      in if length requests = 0 then results
         else fold (\<lambda>item results.
                      results[idx item := Some (fst (Execute e (envs (idx item)) (req item)))])
                (completion (dispatch_order requests)) results)"

section \<open>registry.go\<close>

text \<open>
  A factory returns the Go pair \<open>(Tool, error)\<close>; either component may be nil. Its
  argument is \<open>None\<close> for a nil configuration map.
\<close>

type_synonym ToolFactory = "(string \<rightharpoonup> any) option \<Rightarrow> Tool option \<times> error option"

record Registry =
  factories :: "string \<rightharpoonup> ToolFactory"
  instances :: "string \<rightharpoonup> Tool"

definition NewRegistry :: Registry where
  "NewRegistry = \<lparr>factories = Map.empty, instances = Map.empty\<rparr>"

definition RegisterFactory :: "Registry \<Rightarrow> string \<Rightarrow> ToolFactory \<Rightarrow> Registry" where
  "RegisterFactory r name factory = r\<lparr>factories := (factories r)(name \<mapsto> factory)\<rparr>"

definition RegisterInstance :: "Registry \<Rightarrow> Tool \<Rightarrow> Registry" where
  "RegisterInstance r t = r\<lparr>instances := (instances r)(Name t \<mapsto> t)\<rparr>"

text \<open>
  \<open>Create\<close> returns the pair \<open>(Tool, error)\<close> and the registry it leaves behind: it holds
  the read lock and assigns to neither map.
\<close>

definition Create ::
  "Registry \<Rightarrow> string \<Rightarrow> (string \<rightharpoonup> any) option \<Rightarrow> (Tool option \<times> error option) \<times> Registry" where
  "Create r name cfg =
     (case factories r name of
        Some factory \<Rightarrow> (factory cfg, r)
      | None \<Rightarrow>
          (case instances r name of
             Some instance \<Rightarrow> ((Some instance, None), r)
           | None \<Rightarrow> ((None, Some (ToolNotFoundError name)), r)))"

section \<open>Names for what a call of Execute decides\<close>

abbreviation timeout_of :: "Executor \<Rightarrow> ExecuteRequest \<Rightarrow> int" where
  "timeout_of e rq \<equiv> fst (determine_config e rq)"

abbreviation retryPolicy_of :: "Executor \<Rightarrow> ExecuteRequest \<Rightarrow> RetryPolicy option" where
  "retryPolicy_of e rq \<equiv> fst (snd (determine_config e rq))"

abbreviation requiresApproval_of :: "Executor \<Rightarrow> ExecuteRequest \<Rightarrow> bool" where
  "requiresApproval_of e rq \<equiv> snd (snd (snd (determine_config e rq)))"

abbreviation result_of :: "Executor \<Rightarrow> Env \<Rightarrow> ExecuteRequest \<Rightarrow> ExecuteResult" where
  "result_of e env rq \<equiv> fst (Execute e env rq)"

abbreviation events_of :: "Executor \<Rightarrow> Env \<Rightarrow> ExecuteRequest \<Rightarrow> event list" where
  "events_of e env rq \<equiv> snd (Execute e env rq)"

text \<open>How many times the call invoked the capability's \<open>Execute\<close>.\<close>

abbreviation calls_of :: "Executor \<Rightarrow> Env \<Rightarrow> ExecuteRequest \<Rightarrow> nat" where
  "calls_of e env rq \<equiv> invocations (snd (Execute e env rq))"

text \<open>What the \<open>k\<close>-th invocation returns, given the context this executor hands it.\<close>

abbreviation outcome_of :: "Executor \<Rightarrow> ExecuteRequest \<Rightarrow> nat \<Rightarrow> any \<times> error option" where
  "outcome_of e rq k \<equiv> invoke rq (fst (determine_config e rq)) k"

text \<open>
  The three early returns of \<open>Execute\<close>: the wait for a slot is cancelled, validation
  fails, or approval is required and not given.
\<close>

definition rejected :: "Executor \<Rightarrow> Env \<Rightarrow> ExecuteRequest \<Rightarrow> bool" where
  "rejected e env rq =
     (if slot_cancelled env then True
      else if ValidateInput (Tool rq) (Input rq) = None
           then requiresApproval_of e rq \<and> \<not> approved (Context rq)
           else True)"

text \<open>
  The policy resolution in the words of spec.md, section 4.4 item 3, to be compared with
  \<open>determine_config\<close>: the override if positive, else the tool's own timeout if positive,
  else the engine default, which the spec gives as 60 seconds; a long-running tool with
  no timeout and no override is unbounded.
\<close>

definition spec_timeout :: "ExecuteRequest \<Rightarrow> int" where
  "spec_timeout rq =
     (if TimeoutOverride rq > 0 then TimeoutOverride rq
      else case Enhanced (Tool rq) of
             None \<Rightarrow> 60 * Second
           | Some et \<Rightarrow>
               if IsLongRunning et \<and> Timeout et = 0 \<and> TimeoutOverride rq = 0 then 0
               else if Timeout et > 0 then Timeout et
               else 60 * Second)"

text \<open>The same resolution with the default the executor was configured with.\<close>

definition policy_timeout :: "Executor \<Rightarrow> ExecuteRequest \<Rightarrow> int" where
  "policy_timeout e rq =
     (if TimeoutOverride rq > 0 then TimeoutOverride rq
      else case Enhanced (Tool rq) of
             None \<Rightarrow> DefaultTimeout (config e)
           | Some et \<Rightarrow>
               if IsLongRunning et \<and> Timeout et = 0 \<and> TimeoutOverride rq = 0 then 0
               else if Timeout et > 0 then Timeout et
               else DefaultTimeout (config e))"

section \<open>Example capabilities and requests\<close>

definition Millisecond :: int where
  "Millisecond = 1000000"

text \<open>The schema \<open>NewFunc\<close> gives a tool: one required field, \<open>input\<close>.\<close>

definition freeform_schema :: "string \<rightharpoonup> any" where
  "freeform_schema =
     [''type'' \<mapsto> AString ''object'',
      ''properties'' \<mapsto> AMap [(''input'', AMap [(''type'', AString ''string''),
                                                (''description'', AString ''freeform input'')])],
      ''required'' \<mapsto> AStrings [''input'']]"

definition timeout_policy :: RetryPolicy where
  "timeout_policy =
     \<lparr>MaxRetries = 3, InitialBackoff = 100 * Millisecond, MaxBackoff = 5 * Second,
      RetryableErrors = [''timeout'']\<rparr>"

text \<open>Fails twice with an error that matches the pattern \<open>timeout\<close>, then succeeds.\<close>

definition flaky_tool :: Tool where
  "flaky_tool =
     \<lparr>Name = ''flaky'', InputSchema = Some freeform_schema,
      ToolExecute = (\<lambda>k execCtx input tc.
          if k < 2 then (ANil, Some (Errorf ''upstream timeout'')) else (AString ''done'', None)),
      Enhanced = Some \<lparr>IsLongRunning = False, Timeout = 30 * Second, Priority = 0,
                       RequiresApproval = False, RetryPolicy = Some timeout_policy\<rparr>\<rparr>"

text \<open>Always fails with an error that matches no pattern of its policy.\<close>

definition broken_tool :: Tool where
  "broken_tool =
     \<lparr>Name = ''broken'', InputSchema = Some freeform_schema,
      ToolExecute = (\<lambda>k execCtx input tc. (ANil, Some (Errorf ''permission denied''))),
      Enhanced = Some \<lparr>IsLongRunning = False, Timeout = 30 * Second, Priority = 7,
                       RequiresApproval = False, RetryPolicy = Some timeout_policy\<rparr>\<rparr>"

text \<open>A tool that implements only \<open>Tool\<close>, and echoes its input.\<close>

definition echo_tool :: Tool where
  "echo_tool =
     \<lparr>Name = ''echo'', InputSchema = Some freeform_schema,
      ToolExecute = (\<lambda>k execCtx input tc.
          (case input ''input'' of None \<Rightarrow> ANil | Some v \<Rightarrow> v, None)),
      Enhanced = None\<rparr>"

text \<open>A tool behind the approval gate.\<close>

definition gated_tool :: Tool where
  "gated_tool =
     \<lparr>Name = ''deploy'', InputSchema = Some freeform_schema,
      ToolExecute = (\<lambda>k execCtx input tc. (AString ''deployed'', None)),
      Enhanced = Some \<lparr>IsLongRunning = False, Timeout = 30 * Second, Priority = 3,
                       RequiresApproval = True, RetryPolicy = None\<rparr>\<rparr>"

text \<open>A long-running tool that declares no timeout.\<close>

definition watcher_tool :: Tool where
  "watcher_tool =
     \<lparr>Name = ''watch'', InputSchema = None,
      ToolExecute = (\<lambda>k execCtx input tc. (AString ''resource-1'', None)),
      Enhanced = Some \<lparr>IsLongRunning = True, Timeout = 0, Priority = 0,
                       RequiresApproval = False, RetryPolicy = None\<rparr>\<rparr>"

definition empty_context :: ToolContext where
  "empty_context =
     \<lparr>AgentID = ''agent'', SessionID = ''session'', ExecutionID = ''exec'',
      Metadata = Map.empty\<rparr>"

definition request_for :: "Tool \<Rightarrow> ExecuteRequest" where
  "request_for t =
     \<lparr>Tool = t, Input = [''input'' \<mapsto> AString ''hello''], Context = Some empty_context,
      TimeoutOverride = 0\<rparr>"

text \<open>A request that leaves out the required field.\<close>

definition incomplete_request :: ExecuteRequest where
  "incomplete_request =
     \<lparr>Tool = echo_tool, Input = Map.empty, Context = Some empty_context,
      TimeoutOverride = 0\<rparr>"

text \<open>A slot is free at once, no cancellation; the call takes 5 ns on the clock.\<close>

definition calm_env :: Env where
  "calm_env =
     \<lparr>now_start = 100, now_end = 105, slot_cancelled = False,
      backoff_cancelled = (\<lambda>k. False), ctx_err = Canceled\<rparr>"

text \<open>The caller gives up while the request waits for a slot.\<close>

definition cancelled_env :: Env where
  "cancelled_env =
     \<lparr>now_start = 100, now_end = 105, slot_cancelled = True,
      backoff_cancelled = (\<lambda>k. False), ctx_err = Canceled\<rparr>"

definition default_executor :: Executor where
  "default_executor = NewExecutor \<lparr>MaxConcurrency = 0, DefaultTimeout = 0\<rparr>"

definition ten_second_executor :: Executor where
  "ten_second_executor = NewExecutor \<lparr>MaxConcurrency = 2, DefaultTimeout = 10 * Second\<rparr>"

text \<open>A batch of three requests, with priorities 0, 7 and 3.\<close>

definition example_batch :: "ExecuteRequest list" where
  "example_batch = [request_for echo_tool, request_for broken_tool, request_for gated_tool]"

text \<open>A factory that fails with a not-found error of its own.\<close>

definition failing_factory :: ToolFactory where
  "failing_factory cfg = (None, Some (ToolNotFoundError ''ghost''))"

definition echo_factory :: ToolFactory where
  "echo_factory cfg =
     (case cfg of
        None \<Rightarrow> (Some echo_tool, None)
      | Some c \<Rightarrow> (case c ''name'' of
                    Some (AString n) \<Rightarrow> (Some (echo_tool\<lparr>Name := n\<rparr>), None)
                  | _ \<Rightarrow> (Some echo_tool, None)))"

section \<open>The attempt loop\<close>




lemma loop_exit: "\<not> int attempt < m \<Longrightarrow> attempt_loop env rq timeout rp m attempt st = st"
  by (subst attempt_loop.simps) simp

lemma loop_Break:
  "int attempt < m \<Longrightarrow> attempt_body env rq timeout rp m attempt st = Break st' \<Longrightarrow>
   attempt_loop env rq timeout rp m attempt st = st'"
  by (subst attempt_loop.simps) simp

lemma loop_Continue:
  "int attempt < m \<Longrightarrow> attempt_body env rq timeout rp m attempt st = Continue st' \<Longrightarrow>
   attempt_loop env rq timeout rp m attempt st =
     attempt_loop env rq timeout rp m (attempt + 1) st'"
  by (subst attempt_loop.simps) simp

lemma invocations_Nil [simp]: "invocations [] = 0"
  by (simp add: invocations_def)

lemma body_success:
  "snd (invoke rq timeout attempt) = None \<Longrightarrow>
   attempt_body env rq timeout rp m attempt st =
     Break (fst (invoke rq timeout attempt), None, int attempt + 1,
            snd (snd (snd st)) @ [Invoke attempt (attempt_ctx timeout)])"
  by (simp add: attempt_body_def)

lemma body_retry:
  "snd (invoke rq timeout attempt) = Some err \<Longrightarrow> int attempt < m - 1 \<Longrightarrow>
   isRetryable err rp \<Longrightarrow> \<not> backoff_cancelled env attempt \<Longrightarrow>
   attempt_body env rq timeout rp m attempt st =
     Continue (fst (invoke rq timeout attempt), Some err, int attempt + 1,
               snd (snd (snd st)) @ [Invoke attempt (attempt_ctx timeout), Backoff attempt])"
  by (simp add: attempt_body_def)

lemma body_Continue_cases:
  "attempt_body env rq timeout rp m attempt st = Continue st' \<Longrightarrow>
   (\<exists>err. snd (invoke rq timeout attempt) = Some err \<and>
      (if int attempt < m - 1
       then isRetryable err rp \<and> \<not> backoff_cancelled env attempt \<and>
            st' = (fst (invoke rq timeout attempt), Some err, int attempt + 1,
                   snd (snd (snd st)) @ [Invoke attempt (attempt_ctx timeout), Backoff attempt])
       else st' = (fst (invoke rq timeout attempt), Some err, int attempt + 1,
                   snd (snd (snd st)) @ [Invoke attempt (attempt_ctx timeout)])))"
  by (auto simp: attempt_body_def Let_def split: option.splits if_splits)

lemma body_Break_cases:
  "attempt_body env rq timeout rp m attempt st = Break st' \<Longrightarrow>
   (snd (invoke rq timeout attempt) = None \<and>
      st' = (fst (invoke rq timeout attempt), None, int attempt + 1,
             snd (snd (snd st)) @ [Invoke attempt (attempt_ctx timeout)])) \<or>
   (\<exists>err. snd (invoke rq timeout attempt) = Some err \<and> int attempt < m - 1 \<and>
      ((\<not> isRetryable err rp \<and>
        st' = (fst (invoke rq timeout attempt), Some err, int attempt + 1,
               snd (snd (snd st)) @ [Invoke attempt (attempt_ctx timeout)])) \<or>
       (isRetryable err rp \<and> backoff_cancelled env attempt \<and>
        st' = (fst (invoke rq timeout attempt), Some (ctx_err env), int attempt + 1,
               snd (snd (snd st)) @ [Invoke attempt (attempt_ctx timeout), Backoff attempt]))))"
  by (auto simp: attempt_body_def Let_def split: option.splits if_splits)

lemma body_step:
  assumes "attempt_body env rq timeout rp m attempt st = c" "c = Break st' \<or> c = Continue st'"
  shows "invocations (snd (snd (snd st'))) = Suc (invocations (snd (snd (snd st))))"
    and "fst (snd (snd st')) = int attempt + 1"
  using assms
  by (auto simp: attempt_body_def Let_def invocations_def split: option.splits if_splits)

lemma loop_invocations_le:
  "invocations (snd (snd (snd (attempt_loop env rq timeout rp m attempt st))))
     \<le> invocations (snd (snd (snd st))) + nat (m - int attempt)"
proof (induction env rq timeout rp m attempt st rule: attempt_loop.induct)
  case (1 env rq timeout rp m attempt st)
  show ?case
  proof (cases "int attempt < m")
    case False
    then show ?thesis by (simp add: loop_exit)
  next
    case True
    show ?thesis
    proof (cases "attempt_body env rq timeout rp m attempt st")
      case (Break st')
      with True body_step(1)[OF Break, of st'] show ?thesis
        by (simp add: loop_Break)
    next
      case (Continue st')
      with True body_step(1)[OF Continue, of st'] "1.IH"[OF True Continue] show ?thesis
        by (simp add: loop_Continue)
    qed
  qed
qed

lemma loop_attempts:
  "int attempt < m \<Longrightarrow>
   fst (snd (snd (attempt_loop env rq timeout rp m attempt st)))
     = int attempt + int (invocations (snd (snd (snd (attempt_loop env rq timeout rp m attempt st)))))
         - int (invocations (snd (snd (snd st)))) \<and>
   invocations (snd (snd (snd st)))
     < invocations (snd (snd (snd (attempt_loop env rq timeout rp m attempt st))))"
proof (induction env rq timeout rp m attempt st rule: attempt_loop.induct)
  case (1 env rq timeout rp m attempt st)
  note lt = \<open>int attempt < m\<close>
  show ?case
  proof (cases "attempt_body env rq timeout rp m attempt st")
    case (Break st')
    with lt body_step[OF Break, of st'] show ?thesis
      by (simp add: loop_Break)
  next
    case (Continue st')
    note st = body_step[OF Continue, of st']
    show ?thesis
    proof (cases "int (attempt + 1) < m")
      case True
      with "1.IH"[OF lt Continue True] st lt Continue show ?thesis
        by (simp add: loop_Continue)
    next
      case False
      with st lt Continue show ?thesis
        by (simp add: loop_Continue loop_exit)
    qed
  qed
qed


lemma loop_stops:
  assumes "attempt \<le> k"
    and "case snd (invoke rq timeout k) of None \<Rightarrow> True
         | Some err \<Rightarrow> \<not> isRetryable err rp \<or> backoff_cancelled env k"
  shows "invocations (snd (snd (snd (attempt_loop env rq timeout rp m attempt st))))
           \<le> invocations (snd (snd (snd st))) + (k + 1 - attempt)"
  using assms
proof (induction env rq timeout rp m attempt st rule: attempt_loop.induct)
  case (1 env rq timeout rp m attempt st)
  show ?case
  proof (cases "int attempt < m")
    case False
    then show ?thesis by (simp add: loop_exit)
  next
    case True
    show ?thesis
    proof (cases "attempt_body env rq timeout rp m attempt st")
      case (Break st')
      with True body_step(1)[OF Break, of st'] "1.prems"(1) show ?thesis
        by (simp add: loop_Break)
    next
      case (Continue st')
      note st = body_step(1)[OF Continue, of st']
      show ?thesis
      proof (cases "attempt = k")
        case False
        with "1.prems" have "attempt + 1 \<le> k" by simp
        from "1.IH"[OF True Continue this "1.prems"(2)] st True Continue \<open>attempt + 1 \<le> k\<close>
        show ?thesis by (simp add: loop_Continue)
      next
        case eq: True
        from body_Continue_cases[OF Continue] "1.prems"(2) eq
        have "\<not> int attempt < m - 1" by (auto split: if_splits)
        then have "\<not> int (attempt + 1) < m" by simp
        with st True Continue eq show ?thesis
          by (simp add: loop_Continue loop_exit)
      qed
    qed
  qed
qed

lemma loop_events:
  assumes "ev \<in> set (snd (snd (snd (attempt_loop env rq timeout rp m attempt st))))"
  shows "ev \<in> set (snd (snd (snd st))) \<or>
         (\<exists>k. attempt \<le> k \<and> int k < m \<and>
            (ev = Invoke k (attempt_ctx timeout) \<or>
             (ev = Backoff k \<and> int k < m - 1 \<and>
              (\<exists>err. snd (invoke rq timeout k) = Some err \<and> isRetryable err rp))) \<and>
            (\<forall>i. attempt \<le> i \<and> i < k \<longrightarrow>
               (\<exists>err. snd (invoke rq timeout i) = Some err \<and> isRetryable err rp \<and>
                      \<not> backoff_cancelled env i)))"
  using assms
proof (induction env rq timeout rp m attempt st rule: attempt_loop.induct)
  case (1 env rq timeout rp m attempt st)
  let ?new = "\<lambda>a k. a \<le> k \<and> int k < m \<and>
            (ev = Invoke k (attempt_ctx timeout) \<or>
             (ev = Backoff k \<and> int k < m - 1 \<and>
              (\<exists>err. snd (invoke rq timeout k) = Some err \<and> isRetryable err rp))) \<and>
            (\<forall>i. a \<le> i \<and> i < k \<longrightarrow>
               (\<exists>err. snd (invoke rq timeout i) = Some err \<and> isRetryable err rp \<and>
                      \<not> backoff_cancelled env i))"
  show ?case
  proof (cases "int attempt < m")
    case False
    with "1.prems" show ?thesis by (simp add: loop_exit)
  next
    case True
    show ?thesis
    proof (cases "attempt_body env rq timeout rp m attempt st")
      case (Break st')
      with True "1.prems" have "ev \<in> set (snd (snd (snd st')))"
        by (simp add: loop_Break)
      with body_Break_cases[OF Break] True
      have "ev \<in> set (snd (snd (snd st))) \<or> ?new attempt attempt"
        by auto
      then show ?thesis by blast
    next
      case (Continue st')
      with True "1.prems"
      have "ev \<in> set (snd (snd (snd (attempt_loop env rq timeout rp m (attempt + 1) st'))))"
        by (simp add: loop_Continue)
      from "1.IH"[OF True Continue this]
      consider "ev \<in> set (snd (snd (snd st')))" | k where "?new (attempt + 1) k"
        by blast
      then show ?thesis
      proof cases
        case 1
        with body_Continue_cases[OF Continue] True
        have "ev \<in> set (snd (snd (snd st))) \<or> ?new attempt attempt"
          by (auto split: if_splits)
        then show ?thesis by blast
      next
        case 2
        then have "int attempt < m - 1" by linarith
        with body_Continue_cases[OF Continue]
        have here: "\<exists>err. snd (invoke rq timeout attempt) = Some err \<and> isRetryable err rp \<and>
                      \<not> backoff_cancelled env attempt"
          by auto
        have "?new attempt k"
        proof -
          have "\<forall>i. attempt \<le> i \<and> i < k \<longrightarrow>
               (\<exists>err. snd (invoke rq timeout i) = Some err \<and> isRetryable err rp \<and>
                      \<not> backoff_cancelled env i)"
          proof (intro allI impI)
            fix i assume i: "attempt \<le> i \<and> i < k"
            show "\<exists>err. snd (invoke rq timeout i) = Some err \<and> isRetryable err rp \<and>
                      \<not> backoff_cancelled env i"
            proof (cases "i = attempt")
              case True
              with here show ?thesis by simp
            next
              case False
              with i have "attempt + 1 \<le> i \<and> i < k" by simp
              with 2 show ?thesis by blast
            qed
          qed
          with 2 show ?thesis by simp
        qed
        then show ?thesis by blast
      qed
    qed
  qed
qed

lemma loop_first_success:
  assumes "attempt \<le> k" "int k < m"
    and "\<forall>i. attempt \<le> i \<and> i < k \<longrightarrow>
           (\<exists>err. snd (invoke rq timeout i) = Some err \<and> isRetryable err rp \<and>
                  \<not> backoff_cancelled env i)"
    and "snd (invoke rq timeout k) = None"
  shows "attempt_loop env rq timeout rp m attempt st =
           (fst (invoke rq timeout k), None, int k + 1,
            snd (snd (snd st))
              @ concat (map (\<lambda>i. [Invoke i (attempt_ctx timeout), Backoff i]) [attempt..<k])
              @ [Invoke k (attempt_ctx timeout)])"
  using assms
proof (induction env rq timeout rp m attempt st rule: attempt_loop.induct)
  case (1 env rq timeout rp m attempt st)
  from "1.prems" have lt: "int attempt < m" by simp
  show ?case
  proof (cases "attempt = k")
    case True
    with lt "1.prems"(4) show ?thesis
      by (simp add: loop_Break[OF _ body_success])
  next
    case False
    with "1.prems" have less: "attempt < k" and lt1: "int attempt < m - 1" by simp_all
    with "1.prems"(3) obtain err where
      err: "snd (invoke rq timeout attempt) = Some err" "isRetryable err rp"
           "\<not> backoff_cancelled env attempt"
      by blast
    note body = body_retry[OF err(1) lt1 err(2,3), of st]
    from less have le: "attempt + 1 \<le> k" by simp
    from "1.prems"(3) have all: "\<forall>i. attempt + 1 \<le> i \<and> i < k \<longrightarrow>
           (\<exists>err. snd (invoke rq timeout i) = Some err \<and> isRetryable err rp \<and>
                  \<not> backoff_cancelled env i)"
      by simp
    from "1.IH"[OF lt body le "1.prems"(2) all "1.prems"(4)] less
    show ?thesis
      by (simp add: loop_Continue[OF lt body] upt_conv_Cons)
  qed
qed


section \<open>The paths through Execute\<close>

lemma int64_id: "- (2 ^ 63) \<le> x \<Longrightarrow> x < 2 ^ 63 \<Longrightarrow> int64 x = x"
  by (simp add: int64_def)

lemma int64_le: "0 \<le> x \<Longrightarrow> int64 x \<le> x"
proof -
  assume nonneg: "0 \<le> x"
  have "(x + 2 ^ 63) mod 2 ^ 64 \<le> x + 2 ^ 63"
    using nonneg by (intro zmod_le_nonneg_dividend) simp
  then show ?thesis by (simp add: int64_def)
qed

lemma Execute_slot_cancelled:
  "slot_cancelled env \<Longrightarrow>
   Execute e env rq =
     (\<lparr>Success = False, Output = ANil, Error = Some (ctx_err env), Duration = 0,
       StartedAt = now_start env, FinishedAt = now_end env, Attempts = 0,
       LongRunning = False\<rparr>, [])"
  by (simp add: Execute_def)

lemma Execute_invalid:
  "\<not> slot_cancelled env \<Longrightarrow> ValidateInput (Tool rq) (Input rq) = Some err \<Longrightarrow>
   Execute e env rq =
     (\<lparr>Success = False, Output = ANil, Error = Some err, Duration = 0,
       StartedAt = now_start env, FinishedAt = now_end env, Attempts = 0,
       LongRunning = False\<rparr>, [])"
  by (simp add: Execute_def)

lemma Execute_denied:
  "\<not> slot_cancelled env \<Longrightarrow> ValidateInput (Tool rq) (Input rq) = None \<Longrightarrow>
   requiresApproval_of e rq \<Longrightarrow> \<not> approved (Context rq) \<Longrightarrow>
   Execute e env rq =
     (\<lparr>Success = False, Output = ANil,
       Error = Some (Errorf (''tool '' @ Name (Tool rq) @ '' requires approval before execution'')),
       Duration = Sub (now_end env) (now_start env),
       StartedAt = now_start env, FinishedAt = now_end env, Attempts = 0,
       LongRunning = False\<rparr>, [])"
  by (cases "determine_config e rq") (simp add: Execute_def Let_def)

lemma Execute_loop:
  assumes "\<not> slot_cancelled env" "ValidateInput (Tool rq) (Input rq) = None"
    and "\<not> (requiresApproval_of e rq \<and> \<not> approved (Context rq))"
    and "attempt_loop env rq (timeout_of e rq) (retryPolicy_of e rq)
           (max_attempts (retryPolicy_of e rq)) 0 (ANil, None, 0, []) = (out, err, n, tr)"
  shows "Execute e env rq =
     (\<lparr>Success = (err = None), Output = out, Error = err,
       Duration = Sub (now_end env) (now_start env),
       StartedAt = now_start env, FinishedAt = now_end env, Attempts = n,
       LongRunning = fst (snd (snd (determine_config e rq)))\<rparr>, tr)"
  using assms by (cases "determine_config e rq") (auto simp: Execute_def Let_def)

text \<open>The four paths cover every call.\<close>

lemma Execute_cases:
  obtains
    (slot) "slot_cancelled env"
  | (invalid) err where "\<not> slot_cancelled env" "ValidateInput (Tool rq) (Input rq) = Some err"
  | (denied) "\<not> slot_cancelled env" "ValidateInput (Tool rq) (Input rq) = None"
      "requiresApproval_of e rq" "\<not> approved (Context rq)"
  | (loop) out err n tr where "\<not> slot_cancelled env" "ValidateInput (Tool rq) (Input rq) = None"
      "\<not> (requiresApproval_of e rq \<and> \<not> approved (Context rq))"
      "attempt_loop env rq (timeout_of e rq) (retryPolicy_of e rq)
           (max_attempts (retryPolicy_of e rq)) 0 (ANil, None, 0, []) = (out, err, n, tr)"
  by (metis option.exhaust prod_cases4)

lemma body_failure_last:
  "snd (invoke rq timeout attempt) = Some err \<Longrightarrow> \<not> int attempt < m - 1 \<Longrightarrow>
   attempt_body env rq timeout rp m attempt st =
     Continue (fst (invoke rq timeout attempt), Some err, int attempt + 1,
               snd (snd (snd st)) @ [Invoke attempt (attempt_ctx timeout)])"
  by (simp add: attempt_body_def)

lemma body_failure_final:
  "snd (invoke rq timeout attempt) = Some err \<Longrightarrow> int attempt < m - 1 \<Longrightarrow>
   \<not> isRetryable err rp \<Longrightarrow>
   attempt_body env rq timeout rp m attempt st =
     Break (fst (invoke rq timeout attempt), Some err, int attempt + 1,
            snd (snd (snd st)) @ [Invoke attempt (attempt_ctx timeout)])"
  by (simp add: attempt_body_def)

lemma loop_final_failure:
  assumes "attempt \<le> k" "int k < m"
    and "\<forall>i. attempt \<le> i \<and> i < k \<longrightarrow>
           (\<exists>err. snd (invoke rq timeout i) = Some err \<and> isRetryable err rp \<and>
                  \<not> backoff_cancelled env i)"
    and "snd (invoke rq timeout k) = Some err"
    and "\<not> isRetryable err rp \<or> \<not> int k < m - 1"
  shows "attempt_loop env rq timeout rp m attempt st =
           (fst (invoke rq timeout k), Some err, int k + 1,
            snd (snd (snd st))
              @ concat (map (\<lambda>i. [Invoke i (attempt_ctx timeout), Backoff i]) [attempt..<k])
              @ [Invoke k (attempt_ctx timeout)])"
  using assms
proof (induction env rq timeout rp m attempt st rule: attempt_loop.induct)
  case (1 env rq timeout rp m attempt st)
  from "1.prems" have lt: "int attempt < m" by simp
  show ?case
  proof (cases "attempt = k")
    case True
    show ?thesis
    proof (cases "int k < m - 1")
      case inner: True
      with "1.prems"(5) have "\<not> isRetryable err rp" by simp
      from body_failure_final[OF "1.prems"(4) inner this, of env st] lt True
      show ?thesis by (simp add: loop_Break)
    next
      case last: False
      then have stop: "\<not> int (k + 1) < m" by simp
      from body_failure_last[OF "1.prems"(4) last, of env rp st] lt True stop
      show ?thesis by (simp add: loop_Continue loop_exit)
    qed
  next
    case False
    with "1.prems" have less: "attempt < k" and lt1: "int attempt < m - 1" by simp_all
    with "1.prems"(3) obtain err' where
      err: "snd (invoke rq timeout attempt) = Some err'" "isRetryable err' rp"
           "\<not> backoff_cancelled env attempt"
      by blast
    note body = body_retry[OF err(1) lt1 err(2,3), of st]
    from less have le: "attempt + 1 \<le> k" by simp
    from "1.prems"(3) have all: "\<forall>i. attempt + 1 \<le> i \<and> i < k \<longrightarrow>
           (\<exists>err. snd (invoke rq timeout i) = Some err \<and> isRetryable err rp \<and>
                  \<not> backoff_cancelled env i)"
      by simp
    from "1.IH"[OF lt body le "1.prems"(2) all "1.prems"(4,5)] less
    show ?thesis
      by (simp add: loop_Continue[OF lt body] upt_conv_Cons)
  qed
qed

section \<open>Calls, attempts and events of Execute\<close>

lemma Contains_iff: "Contains s sub \<longleftrightarrow> (\<exists>pre suf. s = pre @ sub @ suf)"
proof (induction s)
  case Nil
  then show ?case by auto
next
  case (Cons c s)
  show ?case
  proof
    assume "Contains (c # s) sub"
    then consider "prefix sub (c # s)" | "Contains s sub" by (auto split: if_splits)
    then show "\<exists>pre suf. c # s = pre @ sub @ suf"
    proof cases
      case 1
      then obtain suf where "c # s = sub @ suf" by (auto simp: prefix_def)
      then have "c # s = [] @ sub @ suf" by simp
      then show ?thesis by blast
    next
      case 2
      with Cons.IH obtain pre suf where "s = pre @ sub @ suf" by blast
      then have "c # s = (c # pre) @ sub @ suf" by simp
      then show ?thesis by blast
    qed
  next
    assume "\<exists>pre suf. c # s = pre @ sub @ suf"
    then obtain pre suf where eq: "c # s = pre @ sub @ suf" by blast
    show "Contains (c # s) sub"
    proof (cases pre)
      case Nil
      with eq have "prefix sub (c # s)" by (simp add: prefix_def)
      then show ?thesis by simp
    next
      case (Cons a pre')
      with eq have "s = pre' @ sub @ suf" by simp
      with Cons.IH have "Contains s sub" by blast
      then show ?thesis by simp
    qed
  qed
qed

lemma matches_any_iff: "matches_any s ps \<longleftrightarrow> (\<exists>p\<in>set ps. Contains s p)"
  by (induction ps) auto

lemma isRetryable_iff:
  "isRetryable err (Some p) \<longleftrightarrow>
     RetryableErrors p = [] \<or> (\<exists>pat\<in>set (RetryableErrors p). Contains (Error_of err) pat)"
  by (auto simp: isRetryable_def matches_any_iff)

lemma rejected_events:
  "rejected e env rq \<Longrightarrow> events_of e env rq = []"
  "rejected e env rq \<Longrightarrow> Attempts (result_of e env rq) = 0"
  "rejected e env rq \<Longrightarrow> \<not> Success (result_of e env rq)"
  "rejected e env rq \<Longrightarrow> Error (result_of e env rq) \<noteq> None"
  by (cases rule: Execute_cases[where env = env and rq = rq and e = e];
      simp add: Execute_slot_cancelled Execute_invalid Execute_denied rejected_def)+

lemma Execute_run:
  assumes "\<not> rejected e env rq"
  shows "Execute e env rq =
     (let st = attempt_loop env rq (timeout_of e rq) (retryPolicy_of e rq)
                 (max_attempts (retryPolicy_of e rq)) 0 (ANil, None, 0, [])
      in (\<lparr>Success = (fst (snd st) = None), Output = fst st, Error = fst (snd st),
            Duration = Sub (now_end env) (now_start env),
            StartedAt = now_start env, FinishedAt = now_end env,
            Attempts = fst (snd (snd st)),
            LongRunning = fst (snd (snd (determine_config e rq)))\<rparr>, snd (snd (snd st))))"
proof -
  obtain out err n tr where st: "attempt_loop env rq (timeout_of e rq) (retryPolicy_of e rq)
                 (max_attempts (retryPolicy_of e rq)) 0 (ANil, None, 0, []) = (out, err, n, tr)"
    using prod_cases4 by blast
  from assms have "\<not> slot_cancelled env" "ValidateInput (Tool rq) (Input rq) = None"
    "\<not> (requiresApproval_of e rq \<and> \<not> approved (Context rq))"
    by (auto simp: rejected_def split: if_splits)
  from Execute_loop[OF this st] st show ?thesis by simp
qed

lemma calls_le_max_attempts:
  "int (calls_of e env rq) \<le> max 0 (max_attempts (retryPolicy_of e rq))"
proof (cases "rejected e env rq")
  case True
  then show ?thesis by (simp add: rejected_events)
next
  case False
  from loop_invocations_le[of env rq "timeout_of e rq" "retryPolicy_of e rq"
      "max_attempts (retryPolicy_of e rq)" 0 "(ANil, None, 0, [])"]
  show ?thesis by (simp add: Execute_run[OF False] Let_def)
qed

lemma attempts_eq_calls: "Attempts (result_of e env rq) = int (calls_of e env rq)"
proof (cases "rejected e env rq")
  case True
  then show ?thesis by (simp add: rejected_events)
next
  case False
  show ?thesis
  proof (cases "0 < max_attempts (retryPolicy_of e rq)")
    case True
    then have "int 0 < max_attempts (retryPolicy_of e rq)" by simp
    from loop_attempts[OF this, of env rq "timeout_of e rq" "retryPolicy_of e rq" "(ANil, None, 0, [])"]
    show ?thesis by (simp add: Execute_run[OF False] Let_def)
  next
    case F: False
    then have "\<not> int 0 < max_attempts (retryPolicy_of e rq)" by simp
    from loop_exit[OF this] show ?thesis
      by (simp add: Execute_run[OF False] Let_def)
  qed
qed

lemma calls_positive:
  "\<not> rejected e env rq \<Longrightarrow> 0 < max_attempts (retryPolicy_of e rq) \<Longrightarrow> 0 < calls_of e env rq"
proof -
  assume nr: "\<not> rejected e env rq" and "0 < max_attempts (retryPolicy_of e rq)"
  then have "int 0 < max_attempts (retryPolicy_of e rq)" by simp
  from loop_attempts[OF this, of env rq "timeout_of e rq" "retryPolicy_of e rq" "(ANil, None, 0, [])"]
  show ?thesis by (simp add: Execute_run[OF nr] Let_def)
qed

lemma calls_stop:
  assumes "case snd (outcome_of e rq k) of None \<Rightarrow> True
           | Some err \<Rightarrow> \<not> isRetryable err (retryPolicy_of e rq) \<or> backoff_cancelled env k"
  shows "calls_of e env rq \<le> k + 1"
proof (cases "rejected e env rq")
  case True
  then show ?thesis by (simp add: rejected_events)
next
  case False
  from loop_stops[where attempt = 0 and m = "max_attempts (retryPolicy_of e rq)"
      and st = "(ANil, None, 0, [])" and env = env, OF _ assms]
  show ?thesis by (simp add: Execute_run[OF False] Let_def)
qed

lemma Execute_first_success:
  assumes nr: "\<not> rejected e env rq"
    and k: "int k < max_attempts (retryPolicy_of e rq)"
    and retry: "\<forall>i<k. \<exists>err. snd (outcome_of e rq i) = Some err \<and>
                  isRetryable err (retryPolicy_of e rq) \<and> \<not> backoff_cancelled env i"
    and ok: "snd (outcome_of e rq k) = None"
  shows "Success (result_of e env rq)" "Error (result_of e env rq) = None"
    "Attempts (result_of e env rq) = int k + 1"
    "Output (result_of e env rq) = fst (outcome_of e rq k)"
    "events_of e env rq =
       concat (map (\<lambda>i. [Invoke i (attempt_ctx (timeout_of e rq)), Backoff i]) [0..<k])
         @ [Invoke k (attempt_ctx (timeout_of e rq))]"
proof -
  from retry have "\<forall>i. 0 \<le> i \<and> i < k \<longrightarrow> (\<exists>err. snd (outcome_of e rq i) = Some err \<and>
                  isRetryable err (retryPolicy_of e rq) \<and> \<not> backoff_cancelled env i)"
    by simp
  from loop_first_success[where attempt = 0 and st = "(ANil, None, 0, [])" and env = env,
      OF _ k this ok]
  have st: "attempt_loop env rq (timeout_of e rq) (retryPolicy_of e rq)
          (max_attempts (retryPolicy_of e rq)) 0 (ANil, None, 0, []) =
        (fst (outcome_of e rq k), None, int k + 1,
         concat (map (\<lambda>i. [Invoke i (attempt_ctx (timeout_of e rq)), Backoff i]) [0..<k])
           @ [Invoke k (attempt_ctx (timeout_of e rq))])"
    by simp
  show "Success (result_of e env rq)" "Error (result_of e env rq) = None"
    "Attempts (result_of e env rq) = int k + 1"
    "Output (result_of e env rq) = fst (outcome_of e rq k)"
    "events_of e env rq =
       concat (map (\<lambda>i. [Invoke i (attempt_ctx (timeout_of e rq)), Backoff i]) [0..<k])
         @ [Invoke k (attempt_ctx (timeout_of e rq))]"
    by (simp_all add: Execute_run[OF nr] st)
qed

lemma invocations_retries:
  "invocations (concat (map (\<lambda>i. [Invoke i c, Backoff i]) [0..<k]) @ [Invoke k c]) = k + 1"
  by (induction k) (simp_all add: invocations_def)

lemma max_attempts_None: "max_attempts None = 1"
  by (simp add: max_attempts_def)

lemma max_attempts_Some_le: "0 \<le> MaxRetries p \<Longrightarrow> max_attempts (Some p) \<le> 1 + MaxRetries p"
  by (simp add: max_attempts_def int64_le)

lemma max_attempts_Some: "0 \<le> MaxRetries p \<Longrightarrow> MaxRetries p < 2 ^ 63 - 1 \<Longrightarrow> max_attempts (Some p) = 1 + MaxRetries p"
  by (simp add: max_attempts_def int64_id)

lemma approved_iff:
  "approved tc \<longleftrightarrow> (\<exists>c. tc = Some c \<and> Metadata c ''approved'' = Some (ABool True))"
  by (auto simp: approved_def split: option.splits any.splits)

lemma requiresApproval_of_eq:
  "requiresApproval_of e rq =
     (case Enhanced (Tool rq) of None \<Rightarrow> False | Some et \<Rightarrow> RequiresApproval et)"
  by (simp add: determine_config_def Let_def split: option.splits)

lemma retryPolicy_of_eq:
  "retryPolicy_of e rq = (case Enhanced (Tool rq) of None \<Rightarrow> None | Some et \<Rightarrow> RetryPolicy et)"
  by (simp add: determine_config_def Let_def split: option.splits)

lemma timeout_of_eq: "timeout_of e rq = policy_timeout e rq"
  by (simp add: determine_config_def policy_timeout_def Let_def split: option.splits)

lemma check_required_iff:
  "check_required required input \<noteq> None \<longleftrightarrow> (\<exists>field\<in>set required. input field = None)"
  by (induction required) auto

lemma check_required_first:
  "check_required required input = Some err \<Longrightarrow>
   \<exists>field\<in>set required. input field = None \<and> err = Errorf (''missing required field: '' @ field)"
  by (induction required) (auto split: if_splits)

lemma ValidateInput_iff:
  "ValidateInput t input \<noteq> None \<longleftrightarrow>
     (\<exists>schema field. InputSchema t = Some schema \<and> field \<in> set (required_fields schema) \<and>
        input field = None)"
proof (cases "InputSchema t")
  case None
  then show ?thesis by (simp add: ValidateInput_def)
next
  case (Some schema)
  with check_required_iff[of "required_fields schema" input] show ?thesis
    by (auto simp: ValidateInput_def)
qed

lemma not_rejected_ran:
  assumes "\<not> rejected e env rq"
  shows "Success (result_of e env rq) \<or> 0 < Attempts (result_of e env rq)"
proof (cases "0 < max_attempts (retryPolicy_of e rq)")
  case True
  from calls_positive[OF assms True] show ?thesis by (simp add: attempts_eq_calls)
next
  case False
  then have "\<not> int 0 < max_attempts (retryPolicy_of e rq)" by simp
  from loop_exit[OF this] show ?thesis
    by (simp add: Execute_run[OF assms] Let_def)
qed

lemma Execute_events:
  assumes "ev \<in> set (events_of e env rq)"
  shows "\<exists>k. int k < max_attempts (retryPolicy_of e rq) \<and>
            (ev = Invoke k (attempt_ctx (timeout_of e rq)) \<or>
             (ev = Backoff k \<and> int k < max_attempts (retryPolicy_of e rq) - 1 \<and>
              (\<exists>err. snd (outcome_of e rq k) = Some err \<and>
                     isRetryable err (retryPolicy_of e rq)))) \<and>
            (\<forall>i<k. \<exists>err. snd (outcome_of e rq i) = Some err \<and>
                     isRetryable err (retryPolicy_of e rq) \<and> \<not> backoff_cancelled env i)"
proof (cases "rejected e env rq")
  case True
  with assms show ?thesis by (simp add: rejected_events)
next
  case False
  from assms have "ev \<in> set (snd (snd (snd (attempt_loop env rq (timeout_of e rq)
      (retryPolicy_of e rq) (max_attempts (retryPolicy_of e rq)) 0 (ANil, None, 0, [])))))"
    by (simp add: Execute_run[OF False] Let_def)
  from loop_events[OF this] show ?thesis by auto
qed

lemma Execute_final_failure:
  assumes nr: "\<not> rejected e env rq"
    and k: "int k < max_attempts (retryPolicy_of e rq)"
    and retry: "\<forall>i<k. \<exists>err. snd (outcome_of e rq i) = Some err \<and>
                  isRetryable err (retryPolicy_of e rq) \<and> \<not> backoff_cancelled env i"
    and err: "snd (outcome_of e rq k) = Some err"
    and stop: "\<not> isRetryable err (retryPolicy_of e rq) \<or>
               \<not> int k < max_attempts (retryPolicy_of e rq) - 1"
  shows "\<not> Success (result_of e env rq)" "Error (result_of e env rq) = Some err"
    "Attempts (result_of e env rq) = int k + 1"
    "events_of e env rq =
       concat (map (\<lambda>i. [Invoke i (attempt_ctx (timeout_of e rq)), Backoff i]) [0..<k])
         @ [Invoke k (attempt_ctx (timeout_of e rq))]"
proof -
  from retry have "\<forall>i. 0 \<le> i \<and> i < k \<longrightarrow> (\<exists>err. snd (outcome_of e rq i) = Some err \<and>
                  isRetryable err (retryPolicy_of e rq) \<and> \<not> backoff_cancelled env i)"
    by simp
  from loop_final_failure[where attempt = 0 and st = "(ANil, None, 0, [])" and env = env,
      OF _ k this err stop]
  have st: "attempt_loop env rq (timeout_of e rq) (retryPolicy_of e rq)
          (max_attempts (retryPolicy_of e rq)) 0 (ANil, None, 0, []) =
        (fst (outcome_of e rq k), Some err, int k + 1,
         concat (map (\<lambda>i. [Invoke i (attempt_ctx (timeout_of e rq)), Backoff i]) [0..<k])
           @ [Invoke k (attempt_ctx (timeout_of e rq))])"
    by simp
  show "\<not> Success (result_of e env rq)" "Error (result_of e env rq) = Some err"
    "Attempts (result_of e env rq) = int k + 1"
    "events_of e env rq =
       concat (map (\<lambda>i. [Invoke i (attempt_ctx (timeout_of e rq)), Backoff i]) [0..<k])
         @ [Invoke k (attempt_ctx (timeout_of e rq))]"
    by (simp_all add: Execute_run[OF nr] st)
qed

lemma NewExecutor_default:
  "DefaultTimeout (config (NewExecutor cfg)) =
     (if DefaultTimeout cfg \<le> 0 then 60 * Second else DefaultTimeout cfg)"
  by (simp add: NewExecutor_def Let_def)

lemma policy_timeout_spec:
  "DefaultTimeout (config e) = 60 * Second \<Longrightarrow> policy_timeout e rq = spec_timeout rq"
  by (simp add: policy_timeout_def spec_timeout_def split: option.splits)

lemma Duration_early:
  "slot_cancelled env \<or> ValidateInput (Tool rq) (Input rq) \<noteq> None \<Longrightarrow>
   Duration (result_of e env rq) = 0 \<and> StartedAt (result_of e env rq) = now_start env \<and>
   FinishedAt (result_of e env rq) = now_end env"
  by (cases rule: Execute_cases[where env = env and rq = rq and e = e])
     (simp_all add: Execute_slot_cancelled Execute_invalid)

lemma Duration_late:
  "\<not> slot_cancelled env \<Longrightarrow> ValidateInput (Tool rq) (Input rq) = None \<Longrightarrow>
   Duration (result_of e env rq) = Sub (FinishedAt (result_of e env rq)) (StartedAt (result_of e env rq))"
  by (cases rule: Execute_cases[where env = env and rq = rq and e = e])
     (simp_all add: Execute_denied Execute_loop)

section \<open>The dispatch order and the stores of ExecuteBatch\<close>

lemma insert_stable_insort:
  fixes f :: "'a \<Rightarrow> int"
  shows "insert_stable (\<lambda>a b. f a > f b) x ys = insort_key (\<lambda>a. - f a) x ys"
  by (induction ys) auto

lemma SliceStable_sort_key:
  fixes f :: "'a \<Rightarrow> int"
  shows "SliceStable (\<lambda>a b. f a > f b) xs = sort_key (\<lambda>a. - f a) xs"
  by (induction xs) (simp_all add: SliceStable_def sort_key_def insert_stable_insort)

lemma dispatch_order_sort:
  "dispatch_order requests = sort_key (\<lambda>a. - priority a) (batch_items requests)"
  by (simp add: dispatch_order_def SliceStable_sort_key)

lemma dispatch_order_mset: "mset (dispatch_order requests) = mset (batch_items requests)"
  by (simp add: dispatch_order_sort)

lemma dispatch_order_sorted:
  "sorted_wrt (\<lambda>a b. priority a \<ge> priority b) (dispatch_order requests)"
proof -
  have "sorted (map (\<lambda>a. - priority a) (dispatch_order requests))"
    unfolding dispatch_order_sort by (rule sorted_sort_key)
  then show ?thesis by (simp add: sorted_map)
qed

lemma dispatch_order_stable:
  "filter (\<lambda>it. priority it = p) (dispatch_order requests)
     = filter (\<lambda>it. priority it = p) (batch_items requests)"
proof -
  have "filter (\<lambda>it. - priority it = - p) (sort_key (\<lambda>a. - priority a) (batch_items requests))
      = filter (\<lambda>it. - priority it = - p) (batch_items requests)"
    by (rule sort_key_stable)
  then show ?thesis by (simp add: dispatch_order_sort)
qed

lemma batch_items_nth:
  "i < length requests \<Longrightarrow>
   batch_items requests ! i =
     \<lparr>idx = i, req = requests ! i,
      priority = (case Enhanced (Tool (requests ! i)) of None \<Rightarrow> 0 | Some et \<Rightarrow> Priority et)\<rparr>"
  by (simp add: batch_items_def nth_enumerate_eq)

lemma batch_items_length: "length (batch_items requests) = length requests"
  by (simp add: batch_items_def)

lemma batch_items_fields:
  "map idx (batch_items requests) = [0..<length requests]"
  "map req (batch_items requests) = requests"
  "map priority (batch_items requests) =
     map (\<lambda>r. case Enhanced (Tool r) of None \<Rightarrow> 0 | Some et \<Rightarrow> Priority et) requests"
  by (rule nth_equalityI; simp add: batch_items_length batch_items_nth)+

lemma batch_items_member:
  assumes "it \<in> set (batch_items requests)"
  shows "idx it < length requests \<and> req it = requests ! idx it"
proof -
  from assms obtain i where "i < length requests" "it = batch_items requests ! i"
    by (auto simp: in_set_conv_nth batch_items_length)
  then show ?thesis by (simp add: batch_items_nth)
qed

lemma batch_items_idx_image: "idx ` set (batch_items requests) = {0..<length requests}"
proof -
  have "set (map idx (batch_items requests)) = {0..<length requests}"
    by (simp add: batch_items_fields(1))
  then show ?thesis by simp
qed

lemma fold_store_length:
  "length (fold (\<lambda>item results. results[idx item := g item]) its res) = length res"
  by (induction its arbitrary: res) simp_all

lemma fold_store_nth:
  assumes "\<forall>it\<in>set its. g it = h (idx it)" and "i < length res"
  shows "fold (\<lambda>item results. results[idx item := g item]) its res ! i
           = (if i \<in> idx ` set its then h i else res ! i)"
  using assms
proof (induction its arbitrary: res)
  case Nil
  then show ?case by simp
next
  case (Cons it its)
  from Cons.prems have g: "g it = h (idx it)" and rest: "\<forall>it\<in>set its. g it = h (idx it)"
    by simp_all
  from Cons.prems(2) have len: "i < length (res[idx it := g it])" by simp
  from Cons.IH[OF rest len] g Cons.prems(2) show ?case
    by (auto simp: nth_list_update)
qed

section \<open>Facts about the example capabilities\<close>

lemma default_executor_config:
  "config default_executor = \<lparr>MaxConcurrency = 5, DefaultTimeout = 60 * Second\<rparr>"
  by (simp add: default_executor_def NewExecutor_def Let_def)

lemma flaky_valid:
  "ValidateInput (Tool (request_for flaky_tool)) (Input (request_for flaky_tool)) = None"
  by (simp add: ValidateInput_def request_for_def flaky_tool_def required_fields_def
      freeform_schema_def)

lemma flaky_config:
  "determine_config default_executor (request_for flaky_tool) =
     (30 * Second, Some timeout_policy, False, False)"
  by (simp add: determine_config_def request_for_def flaky_tool_def Let_def Second_def)

lemma flaky_not_rejected: "\<not> rejected default_executor calm_env (request_for flaky_tool)"
  by (simp add: rejected_def flaky_config flaky_valid calm_env_def)

lemma flaky_outcomes:
  "outcome_of default_executor (request_for flaky_tool) k =
     (if k < 2 then (ANil, Some (Errorf ''upstream timeout'')) else (AString ''done'', None))"
  by (simp add: invoke_def request_for_def flaky_tool_def)

lemma Contains_timeout: "Contains ''upstream timeout'' ''timeout''"
  by simp

lemma echo_config:
  "determine_config default_executor (request_for echo_tool) = (60 * Second, None, False, False)"
  by (simp add: determine_config_def request_for_def echo_tool_def Let_def
      default_executor_config)

lemma echo_valid:
  "ValidateInput (Tool (request_for echo_tool)) (Input (request_for echo_tool)) = None"
  by (simp add: ValidateInput_def request_for_def echo_tool_def required_fields_def
      freeform_schema_def)

lemma echo_not_rejected: "\<not> rejected default_executor calm_env (request_for echo_tool)"
  by (simp add: rejected_def echo_config echo_valid calm_env_def)

lemma gated_config:
  "determine_config default_executor (request_for gated_tool) = (30 * Second, None, False, True)"
  by (simp add: determine_config_def request_for_def gated_tool_def Let_def Second_def)

lemma gated_valid:
  "ValidateInput (Tool (request_for gated_tool)) (Input (request_for gated_tool)) = None"
  by (simp add: ValidateInput_def request_for_def gated_tool_def required_fields_def
      freeform_schema_def)

lemma incomplete_invalid:
  "ValidateInput (Tool incomplete_request) (Input incomplete_request) =
     Some (Errorf ''missing required field: input'')"
  by (simp add: ValidateInput_def incomplete_request_def echo_tool_def required_fields_def
      freeform_schema_def)

lemma broken_config:
  "determine_config default_executor (request_for broken_tool) =
     (30 * Second, Some timeout_policy, False, False)"
  by (simp add: determine_config_def request_for_def broken_tool_def Let_def Second_def)

lemma broken_valid:
  "ValidateInput (Tool (request_for broken_tool)) (Input (request_for broken_tool)) = None"
  by (simp add: ValidateInput_def request_for_def broken_tool_def required_fields_def
      freeform_schema_def)

lemma broken_not_rejected: "\<not> rejected default_executor calm_env (request_for broken_tool)"
  by (simp add: rejected_def broken_config broken_valid calm_env_def)

lemma broken_outcomes:
  "outcome_of default_executor (request_for broken_tool) k =
     (ANil, Some (Errorf ''permission denied''))"
  by (simp add: invoke_def request_for_def broken_tool_def)

lemma denied_not_retryable:
  "\<not> isRetryable (Errorf ''permission denied'') (Some timeout_policy)"
  by (simp add: isRetryable_def timeout_policy_def)

lemma timeout_policy_max_attempts: "max_attempts (Some timeout_policy) = 4"
  by (simp add: max_attempts_Some timeout_policy_def)

lemma watcher_config:
  "determine_config default_executor (request_for watcher_tool) = (0, None, True, False)"
  by (simp add: determine_config_def request_for_def watcher_tool_def Let_def)

lemma watcher_events:
  "events_of default_executor calm_env (request_for watcher_tool) = [Invoke 0 None]"
proof -
  have v: "ValidateInput (Tool (request_for watcher_tool)) (Input (request_for watcher_tool)) = None"
    by (simp add: ValidateInput_def request_for_def watcher_tool_def)
  have nr: "\<not> rejected default_executor calm_env (request_for watcher_tool)"
    by (simp add: rejected_def watcher_config calm_env_def v)
  have k: "int 0 < max_attempts (retryPolicy_of default_executor (request_for watcher_tool))"
    by (simp add: watcher_config max_attempts_None)
  have ok: "snd (outcome_of default_executor (request_for watcher_tool) 0) = None"
    by (simp add: invoke_def request_for_def watcher_tool_def)
  from Execute_first_success(5)[OF nr k _ ok] show ?thesis
    by (simp add: watcher_config attempt_ctx_def)
qed

lemma ten_second_config:
  "determine_config ten_second_executor (request_for echo_tool) =
     (10 * Second, None, False, False)"
  by (simp add: determine_config_def request_for_def echo_tool_def Let_def
      ten_second_executor_def NewExecutor_def Second_def)

lemma ten_second_events:
  "events_of ten_second_executor calm_env (request_for echo_tool) = [Invoke 0 (Some (10 * Second))]"
proof -
  have nr: "\<not> rejected ten_second_executor calm_env (request_for echo_tool)"
    by (simp add: rejected_def ten_second_config calm_env_def echo_valid)
  have k: "int 0 < max_attempts (retryPolicy_of ten_second_executor (request_for echo_tool))"
    by (simp add: ten_second_config max_attempts_None)
  have ok: "snd (outcome_of ten_second_executor (request_for echo_tool) 0) = None"
    by (simp add: invoke_def request_for_def echo_tool_def)
  from Execute_first_success(5)[OF nr k _ ok] show ?thesis
    by (simp add: ten_second_config attempt_ctx_def Second_def)
qed

lemma example_batch_dispatch: "map idx (dispatch_order example_batch) = [1, 2, 0]"
  by (simp add: dispatch_order_def SliceStable_def batch_items_def example_batch_def
      request_for_def echo_tool_def broken_tool_def gated_tool_def)

lemma ghost_registry_factories:
  "factories (RegisterFactory NewRegistry ''ghost'' failing_factory) ''ghost'' = Some failing_factory"
  by (simp add: RegisterFactory_def NewRegistry_def)

lemma flaky_success: "Success (result_of default_executor calm_env (request_for flaky_tool))"
proof -
  have k: "int 2 < max_attempts (retryPolicy_of default_executor (request_for flaky_tool))"
    by (simp add: flaky_config timeout_policy_max_attempts)
  have retry: "\<forall>i<2. \<exists>err. snd (outcome_of default_executor (request_for flaky_tool) i) = Some err \<and>
      isRetryable err (retryPolicy_of default_executor (request_for flaky_tool)) \<and>
      \<not> backoff_cancelled calm_env i"
  proof (intro allI impI)
    fix i :: nat
    assume "i < 2"
    then have "snd (outcome_of default_executor (request_for flaky_tool) i)
        = Some (Errorf ''upstream timeout'')"
      by (simp add: flaky_outcomes)
    moreover have "isRetryable (Errorf ''upstream timeout'')
        (retryPolicy_of default_executor (request_for flaky_tool))"
      by (simp add: flaky_config isRetryable_def timeout_policy_def)
    moreover have "\<not> backoff_cancelled calm_env i"
      by (simp add: calm_env_def)
    ultimately show "\<exists>err. snd (outcome_of default_executor (request_for flaky_tool) i) = Some err \<and>
      isRetryable err (retryPolicy_of default_executor (request_for flaky_tool)) \<and>
      \<not> backoff_cancelled calm_env i"
      by blast
  qed
  have ok: "snd (outcome_of default_executor (request_for flaky_tool) 2) = None"
    by (simp add: flaky_outcomes)
  from Execute_first_success(1)[OF flaky_not_rejected k retry ok] show ?thesis .
qed

lemma incomplete_error:
  "Error (result_of default_executor calm_env incomplete_request)
     = Some (Errorf ''missing required field: input'')"
proof -
  have calm: "\<not> slot_cancelled calm_env" by (simp add: calm_env_def)
  show ?thesis by (simp add: Execute_invalid[OF calm incomplete_invalid])
qed

section \<open>The number of attempts\<close>

text \<open>
  Claim C1. With a retry policy whose \<open>MaxRetries\<close> is \<open>n \<ge> 0\<close>, a call of \<open>Execute\<close>
  invokes the capability at most \<open>1 + n\<close> times; with no retry policy it invokes it at
  most once, and exactly once unless the call is rejected before the loop (then not at
  all). No invocation follows a successful one: if the \<open>k\<close>-th invocation (from 0) would
  succeed, there are at most \<open>k + 1\<close> invocations. \<open>Attempts\<close> is the number of invocations
  made. If the first \<open>k\<close> attempts fail with a retryable error, no wait between them is
  cancelled, and attempt \<open>k\<close> is within \<open>maxAttempts\<close> and succeeds, the result is a
  success with \<open>Attempts = k + 1\<close>, after exactly \<open>k + 1\<close> invocations. In particular two
  failures whose message contains a configured pattern, then a success, under
  \<open>MaxRetries = 3\<close>, give \<open>Success = true\<close> and \<open>Attempts = 3\<close>.
\<close>

theorem Execute_attempts:
  "(case retryPolicy_of e rq of
      None \<Rightarrow> calls_of e env rq \<le> 1 \<and> (if rejected e env rq then calls_of e env rq = 0 else calls_of e env rq = 1)
    | Some p \<Rightarrow> 0 \<le> MaxRetries p \<longrightarrow> int (calls_of e env rq) \<le> 1 + MaxRetries p)
   \<and> (\<forall>k. snd (outcome_of e rq k) = None \<longrightarrow> calls_of e env rq \<le> k + 1)
   \<and> Attempts (result_of e env rq) = int (calls_of e env rq)
   \<and> (\<forall>k. \<not> rejected e env rq \<and> int k < max_attempts (retryPolicy_of e rq) \<and>
          (\<forall>i<k. \<exists>err. snd (outcome_of e rq i) = Some err \<and>
                   isRetryable err (retryPolicy_of e rq) \<and> \<not> backoff_cancelled env i) \<and>
          snd (outcome_of e rq k) = None \<longrightarrow>
        Success (result_of e env rq) \<and> Attempts (result_of e env rq) = int k + 1 \<and>
        calls_of e env rq = k + 1 \<and> Output (result_of e env rq) = fst (outcome_of e rq k))
   \<and> (\<forall>p. retryPolicy_of e rq = Some p \<and> MaxRetries p = 3 \<and> \<not> rejected e env rq \<and>
          (\<forall>i<2. \<exists>err pat. snd (outcome_of e rq i) = Some err \<and> pat \<in> set (RetryableErrors p) \<and>
                   Contains (Error_of err) pat \<and> \<not> backoff_cancelled env i) \<and>
          snd (outcome_of e rq 2) = None \<longrightarrow>
        Success (result_of e env rq) \<and> Attempts (result_of e env rq) = 3)"
proof (intro conjI allI impI)
  show "case retryPolicy_of e rq of
      None \<Rightarrow> calls_of e env rq \<le> 1 \<and> (if rejected e env rq then calls_of e env rq = 0 else calls_of e env rq = 1)
    | Some p \<Rightarrow> 0 \<le> MaxRetries p \<longrightarrow> int (calls_of e env rq) \<le> 1 + MaxRetries p"
  proof (cases "retryPolicy_of e rq")
    case None
    with calls_le_max_attempts[of e env rq] have le: "calls_of e env rq \<le> 1"
      by (simp add: max_attempts_None)
    show ?thesis
    proof (cases "rejected e env rq")
      case True
      with None le show ?thesis by (simp add: rejected_events)
    next
      case False
      with calls_positive[OF False] None le show ?thesis
        by (simp add: max_attempts_None)
    qed
  next
    case (Some p)
    with calls_le_max_attempts[of e env rq] max_attempts_Some_le[of p] show ?thesis
      by auto
  qed
next
  fix k assume "snd (outcome_of e rq k) = None"
  then show "calls_of e env rq \<le> k + 1"
    by (intro calls_stop) simp
next
  show "Attempts (result_of e env rq) = int (calls_of e env rq)"
    by (rule attempts_eq_calls)
next
  fix k
  assume h: "\<not> rejected e env rq \<and> int k < max_attempts (retryPolicy_of e rq) \<and>
          (\<forall>i<k. \<exists>err. snd (outcome_of e rq i) = Some err \<and>
                   isRetryable err (retryPolicy_of e rq) \<and> \<not> backoff_cancelled env i) \<and>
          snd (outcome_of e rq k) = None"
  then have nr: "\<not> rejected e env rq" and k: "int k < max_attempts (retryPolicy_of e rq)"
    and retry: "\<forall>i<k. \<exists>err. snd (outcome_of e rq i) = Some err \<and>
                   isRetryable err (retryPolicy_of e rq) \<and> \<not> backoff_cancelled env i"
    and ok: "snd (outcome_of e rq k) = None"
    by blast+
  note fs = Execute_first_success[OF nr k retry ok]
  show "Success (result_of e env rq)" by (rule fs(1))
  show "Attempts (result_of e env rq) = int k + 1" by (rule fs(3))
  show "calls_of e env rq = k + 1" by (simp add: fs(5) invocations_retries)
  show "Output (result_of e env rq) = fst (outcome_of e rq k)" by (rule fs(4))
next
  fix p
  assume h: "retryPolicy_of e rq = Some p \<and> MaxRetries p = 3 \<and> \<not> rejected e env rq \<and>
          (\<forall>i<2. \<exists>err pat. snd (outcome_of e rq i) = Some err \<and> pat \<in> set (RetryableErrors p) \<and>
                   Contains (Error_of err) pat \<and> \<not> backoff_cancelled env i) \<and>
          snd (outcome_of e rq 2) = None"
  then have nr: "\<not> rejected e env rq" and ok: "snd (outcome_of e rq 2) = None"
    and p: "retryPolicy_of e rq = Some p" "MaxRetries p = 3"
    by blast+
  from p have k: "int 2 < max_attempts (retryPolicy_of e rq)"
    by (simp add: max_attempts_Some)
  have retry: "\<forall>i<2. \<exists>err. snd (outcome_of e rq i) = Some err \<and>
                   isRetryable err (retryPolicy_of e rq) \<and> \<not> backoff_cancelled env i"
  proof (intro allI impI)
    fix i :: nat
    assume "i < 2"
    with h obtain err pat where "snd (outcome_of e rq i) = Some err"
      "pat \<in> set (RetryableErrors p)" "Contains (Error_of err) pat"
      "\<not> backoff_cancelled env i"
      by blast
    then show "\<exists>err. snd (outcome_of e rq i) = Some err \<and>
                   isRetryable err (retryPolicy_of e rq) \<and> \<not> backoff_cancelled env i"
      unfolding p isRetryable_iff by blast
  qed
  note fs = Execute_first_success[OF nr k retry ok]
  show "Success (result_of e env rq)" by (rule fs(1))
  from fs(3) show "Attempts (result_of e env rq) = 3" by simp
qed

theorem Execute_attempts_witness:
  "retryPolicy_of default_executor (request_for flaky_tool) = Some timeout_policy \<and>
   MaxRetries timeout_policy = 3 \<and>
   Success (result_of default_executor calm_env (request_for flaky_tool)) \<and>
   Attempts (result_of default_executor calm_env (request_for flaky_tool)) = 3 \<and>
   int (calls_of default_executor calm_env (request_for flaky_tool)) \<le> 1 + 3 \<and>
   retryPolicy_of default_executor (request_for echo_tool) = None \<and>
   calls_of default_executor calm_env (request_for echo_tool) = 1"
proof -
  let ?rq = "request_for flaky_tool"
  have p: "retryPolicy_of default_executor ?rq = Some timeout_policy"
    "MaxRetries timeout_policy = 3"
    by (simp_all add: flaky_config timeout_policy_def)
  have fails: "\<forall>i<2. \<exists>err pat. snd (outcome_of default_executor ?rq i) = Some err \<and>
      pat \<in> set (RetryableErrors timeout_policy) \<and> Contains (Error_of err) pat \<and>
      \<not> backoff_cancelled calm_env i"
    using Contains_timeout by (simp add: flaky_outcomes timeout_policy_def calm_env_def)
  have ok: "snd (outcome_of default_executor ?rq 2) = None"
    by (simp add: flaky_outcomes)
  from Execute_attempts[where e = default_executor and rq = ?rq and env = calm_env]
    p flaky_not_rejected fails ok
  have flaky: "Success (result_of default_executor calm_env ?rq) \<and>
    Attempts (result_of default_executor calm_env ?rq) = 3 \<and>
    int (calls_of default_executor calm_env ?rq) \<le> 1 + 3"
    by simp
  have q: "retryPolicy_of default_executor (request_for echo_tool) = None"
    by (simp add: echo_config)
  from Execute_attempts[where e = default_executor and rq = "request_for echo_tool"
      and env = calm_env] q echo_not_rejected
  have "calls_of default_executor calm_env (request_for echo_tool) = 1"
    by simp
  with flaky p q show ?thesis by simp
qed

section \<open>The approval gate\<close>

text \<open>
  Claim C3. For a capability whose \<open>RequiresApproval()\<close> is true, when the tool context is
  nil or its metadata does not map \<open>approved\<close> to the boolean true (the key is absent, or
  maps to false or to a value of another type), \<open>Execute\<close> returns a failed result with
  \<open>Attempts = 0\<close> and never invokes the capability. The error is the approval error
  unless the call was already rejected while waiting for a slot or by validation.
\<close>

theorem approval_gate:
  assumes "Enhanced (Tool rq) = Some et" and "RequiresApproval et"
    and "case Context rq of None \<Rightarrow> True
         | Some c \<Rightarrow> Metadata c ''approved'' \<noteq> Some (ABool True)"
  shows "\<not> Success (result_of e env rq) \<and> Attempts (result_of e env rq) = 0 \<and>
         calls_of e env rq = 0 \<and> events_of e env rq = [] \<and>
         Error (result_of e env rq) =
           (if slot_cancelled env then Some (ctx_err env)
            else case ValidateInput (Tool rq) (Input rq) of
                   Some err \<Rightarrow> Some err
                 | None \<Rightarrow> Some (Errorf (''tool '' @ Name (Tool rq)
                                    @ '' requires approval before execution'')))"
proof -
  from assms(3) have na: "\<not> approved (Context rq)"
    by (auto simp: approved_iff)
  from assms(1,2) have ra: "requiresApproval_of e rq"
    by (simp add: requiresApproval_of_eq)
  from na ra have rej: "rejected e env rq" by (simp add: rejected_def)
  have "Error (result_of e env rq) =
           (if slot_cancelled env then Some (ctx_err env)
            else case ValidateInput (Tool rq) (Input rq) of
                   Some err \<Rightarrow> Some err
                 | None \<Rightarrow> Some (Errorf (''tool '' @ Name (Tool rq)
                                    @ '' requires approval before execution'')))"
  proof (cases rule: Execute_cases[where env = env and rq = rq and e = e])
    case slot
    then show ?thesis by (simp add: Execute_slot_cancelled)
  next
    case (invalid err)
    then show ?thesis by (simp add: Execute_invalid)
  next
    case denied
    then show ?thesis by (simp add: Execute_denied)
  next
    case (loop out err n tr)
    with na ra show ?thesis by simp
  qed
  with rejected_events[OF rej] show ?thesis by (simp add:)
qed

theorem approval_gate_witness:
  "\<not> Success (result_of default_executor calm_env (request_for gated_tool)) \<and>
   Attempts (result_of default_executor calm_env (request_for gated_tool)) = 0 \<and>
   calls_of default_executor calm_env (request_for gated_tool) = 0 \<and>
   Error (result_of default_executor calm_env (request_for gated_tool)) =
     Some (Errorf ''tool deploy requires approval before execution'') \<and>
   \<not> Success (result_of default_executor calm_env ((request_for gated_tool)\<lparr>Context := None\<rparr>)) \<and>
   calls_of default_executor calm_env ((request_for gated_tool)\<lparr>Context := None\<rparr>) = 0"
proof -
  let ?et = "\<lparr>IsLongRunning = False, Timeout = 30 * Second, Priority = 3,
              RequiresApproval = True, RetryPolicy = None\<rparr>"
  have et: "Enhanced (Tool (request_for gated_tool)) = Some ?et" "RequiresApproval ?et"
    by (simp_all add: request_for_def gated_tool_def)
  have absent: "case Context (request_for gated_tool) of None \<Rightarrow> True
         | Some c \<Rightarrow> Metadata c ''approved'' \<noteq> Some (ABool True)"
    by (simp add: request_for_def empty_context_def)
  have calm: "\<not> slot_cancelled calm_env" by (simp add: calm_env_def)
  have name: "Name (Tool (request_for gated_tool)) = ''deploy''"
    by (simp add: request_for_def gated_tool_def)
  from approval_gate[OF et absent, of default_executor calm_env] calm gated_valid name
  have first: "\<not> Success (result_of default_executor calm_env (request_for gated_tool)) \<and>
   Attempts (result_of default_executor calm_env (request_for gated_tool)) = 0 \<and>
   calls_of default_executor calm_env (request_for gated_tool) = 0 \<and>
   Error (result_of default_executor calm_env (request_for gated_tool)) =
     Some (Errorf ''tool deploy requires approval before execution'')"
    by simp
  let ?rq = "(request_for gated_tool)\<lparr>Context := None\<rparr>"
  have et': "Enhanced (Tool ?rq) = Some ?et"
    by (simp add: request_for_def gated_tool_def)
  have nil: "case Context ?rq of None \<Rightarrow> True
         | Some c \<Rightarrow> Metadata c ''approved'' \<noteq> Some (ABool True)"
    by simp
  from approval_gate[OF et' et(2) nil, of default_executor calm_env]
  have "\<not> Success (result_of default_executor calm_env ?rq) \<and>
        calls_of default_executor calm_env ?rq = 0"
    by simp
  with first show ?thesis by simp
qed

section \<open>The early returns\<close>

text \<open>
  Claim C4. \<open>Execute\<close> returns a failed result with \<open>Attempts = 0\<close> in exactly three
  cases: the caller's context is done before a slot is free, \<open>ValidateInput\<close> reports an
  error, or approval is required and not given. In each of them the error is non-nil
  (the context's error, the validation error, the approval error) and the capability is
  not invoked. \<open>ValidateInput\<close> reports an error exactly when a field of the schema's
  \<open>required\<close> sequence is no key of the input.
\<close>

theorem short_circuits:
  "((\<not> Success (result_of e env rq) \<and> Attempts (result_of e env rq) = 0) \<longleftrightarrow>
      (slot_cancelled env \<or> ValidateInput (Tool rq) (Input rq) \<noteq> None \<or>
       (requiresApproval_of e rq \<and> \<not> approved (Context rq))))
   \<and> (slot_cancelled env \<longrightarrow>
        Error (result_of e env rq) = Some (ctx_err env) \<and> events_of e env rq = [])
   \<and> (\<forall>err. \<not> slot_cancelled env \<and> ValidateInput (Tool rq) (Input rq) = Some err \<longrightarrow>
        Error (result_of e env rq) = Some err \<and> events_of e env rq = [])
   \<and> (\<not> slot_cancelled env \<and> ValidateInput (Tool rq) (Input rq) = None \<and>
       requiresApproval_of e rq \<and> \<not> approved (Context rq) \<longrightarrow>
        Error (result_of e env rq) =
          Some (Errorf (''tool '' @ Name (Tool rq) @ '' requires approval before execution'')) \<and>
        events_of e env rq = [])
   \<and> (ValidateInput (Tool rq) (Input rq) \<noteq> None \<longleftrightarrow>
        (\<exists>schema field. InputSchema (Tool rq) = Some schema \<and>
           field \<in> set (required_fields schema) \<and> Input rq field = None))"
proof (intro conjI allI impI)
  have rej: "rejected e env rq \<longleftrightarrow>
      (slot_cancelled env \<or> ValidateInput (Tool rq) (Input rq) \<noteq> None \<or>
       (requiresApproval_of e rq \<and> \<not> approved (Context rq)))"
    by (auto simp: rejected_def)
  show "(\<not> Success (result_of e env rq) \<and> Attempts (result_of e env rq) = 0) \<longleftrightarrow>
      (slot_cancelled env \<or> ValidateInput (Tool rq) (Input rq) \<noteq> None \<or>
       (requiresApproval_of e rq \<and> \<not> approved (Context rq)))"
    unfolding rej[symmetric]
  proof
    assume failed: "\<not> Success (result_of e env rq) \<and> Attempts (result_of e env rq) = 0"
    show "rejected e env rq"
    proof (rule ccontr)
      assume "\<not> rejected e env rq"
      from not_rejected_ran[OF this] failed show False by simp
    qed
  next
    assume "rejected e env rq"
    then show "\<not> Success (result_of e env rq) \<and> Attempts (result_of e env rq) = 0"
      by (simp add: rejected_events)
  qed
next
  assume "slot_cancelled env"
  then show "Error (result_of e env rq) = Some (ctx_err env)" "events_of e env rq = []"
    by (simp_all add: Execute_slot_cancelled)
next
  fix err
  assume "\<not> slot_cancelled env \<and> ValidateInput (Tool rq) (Input rq) = Some err"
  then show "Error (result_of e env rq) = Some err" "events_of e env rq = []"
    by (simp_all add: Execute_invalid)
next
  assume "\<not> slot_cancelled env \<and> ValidateInput (Tool rq) (Input rq) = None \<and>
       requiresApproval_of e rq \<and> \<not> approved (Context rq)"
  then show "Error (result_of e env rq) =
          Some (Errorf (''tool '' @ Name (Tool rq) @ '' requires approval before execution''))"
    "events_of e env rq = []"
    by (simp_all add: Execute_denied)
next
  show "ValidateInput (Tool rq) (Input rq) \<noteq> None \<longleftrightarrow>
        (\<exists>schema field. InputSchema (Tool rq) = Some schema \<and>
           field \<in> set (required_fields schema) \<and> Input rq field = None)"
    by (rule ValidateInput_iff)
qed

theorem short_circuits_witness:
  "\<not> Success (result_of default_executor cancelled_env (request_for echo_tool)) \<and>
   Attempts (result_of default_executor cancelled_env (request_for echo_tool)) = 0 \<and>
   Error (result_of default_executor cancelled_env (request_for echo_tool)) = Some Canceled \<and>
   events_of default_executor cancelled_env (request_for echo_tool) = [] \<and>
   \<not> Success (result_of default_executor calm_env incomplete_request) \<and>
   Attempts (result_of default_executor calm_env incomplete_request) = 0 \<and>
   Error (result_of default_executor calm_env incomplete_request) =
     Some (Errorf ''missing required field: input'') \<and>
   events_of default_executor calm_env incomplete_request = [] \<and>
   \<not> Success (result_of default_executor calm_env (request_for gated_tool)) \<and>
   Attempts (result_of default_executor calm_env (request_for gated_tool)) = 0 \<and>
   Error (result_of default_executor calm_env (request_for gated_tool)) =
     Some (Errorf ''tool deploy requires approval before execution'') \<and>
   events_of default_executor calm_env (request_for gated_tool) = []"
proof -
  have c: "slot_cancelled cancelled_env" "ctx_err cancelled_env = Canceled"
    by (simp_all add: cancelled_env_def)
  from short_circuits[where e = default_executor and env = cancelled_env
      and rq = "request_for echo_tool"] c
  have first: "\<not> Success (result_of default_executor cancelled_env (request_for echo_tool)) \<and>
   Attempts (result_of default_executor cancelled_env (request_for echo_tool)) = 0 \<and>
   Error (result_of default_executor cancelled_env (request_for echo_tool)) = Some Canceled \<and>
   events_of default_executor cancelled_env (request_for echo_tool) = []"
    by simp
  have calm: "\<not> slot_cancelled calm_env" by (simp add: calm_env_def)
  from short_circuits[where e = default_executor and env = calm_env
      and rq = incomplete_request] calm incomplete_invalid
  have second: "\<not> Success (result_of default_executor calm_env incomplete_request) \<and>
   Attempts (result_of default_executor calm_env incomplete_request) = 0 \<and>
   Error (result_of default_executor calm_env incomplete_request) =
     Some (Errorf ''missing required field: input'') \<and>
   events_of default_executor calm_env incomplete_request = []"
    by simp
  have g: "requiresApproval_of default_executor (request_for gated_tool)"
    by (simp add: gated_config)
  have g': "\<not> approved (Context (request_for gated_tool))"
    "Name (Tool (request_for gated_tool)) = ''deploy''"
    by (simp_all add: approved_def request_for_def empty_context_def gated_tool_def)
  from short_circuits[where e = default_executor and env = calm_env
      and rq = "request_for gated_tool"] calm gated_valid g g'
  have third: "\<not> Success (result_of default_executor calm_env (request_for gated_tool)) \<and>
   Attempts (result_of default_executor calm_env (request_for gated_tool)) = 0 \<and>
   Error (result_of default_executor calm_env (request_for gated_tool)) =
     Some (Errorf ''tool deploy requires approval before execution'') \<and>
   events_of default_executor calm_env (request_for gated_tool) = []"
    by simp
  from first second third show ?thesis by simp
qed

section \<open>The timeout of an attempt\<close>

text \<open>
  Claim C2, with the engine default as the code has it. The timeout that
  \<open>determine_config\<close> computes, and that every attempt is invoked with, is the request's
  \<open>TimeoutOverride\<close> when that is positive; otherwise 0 (no deadline) for a long-running
  tool whose \<open>Timeout()\<close> is 0 when the override is 0; otherwise the tool's \<open>Timeout()\<close>
  when that is positive; otherwise the executor's \<open>DefaultTimeout\<close>. \<open>NewExecutor\<close> sets
  that default to the configured value when it is positive and to 60 seconds otherwise;
  for an executor whose default is 60 seconds the timeout is the one spec.md describes.
\<close>

theorem effective_timeout:
  "timeout_of e rq = policy_timeout e rq
   \<and> (\<forall>k c. Invoke k c \<in> set (events_of e env rq) \<longrightarrow> c = attempt_ctx (policy_timeout e rq))
   \<and> DefaultTimeout (config (NewExecutor cfg)) =
       (if DefaultTimeout cfg \<le> 0 then 60 * Second else DefaultTimeout cfg)
   \<and> (DefaultTimeout (config e) = 60 * Second \<longrightarrow> policy_timeout e rq = spec_timeout rq)"
proof (intro conjI allI impI)
  show "timeout_of e rq = policy_timeout e rq" by (rule timeout_of_eq)
next
  fix k c
  assume "Invoke k c \<in> set (events_of e env rq)"
  from Execute_events[OF this] show "c = attempt_ctx (policy_timeout e rq)"
    by (auto simp: timeout_of_eq)
next
  show "DefaultTimeout (config (NewExecutor cfg)) =
       (if DefaultTimeout cfg \<le> 0 then 60 * Second else DefaultTimeout cfg)"
    by (rule NewExecutor_default)
next
  assume "DefaultTimeout (config e) = 60 * Second"
  then show "policy_timeout e rq = spec_timeout rq" by (rule policy_timeout_spec)
qed

theorem effective_timeout_witness:
  "timeout_of default_executor (request_for watcher_tool) = 0 \<and>
   events_of default_executor calm_env (request_for watcher_tool) = [Invoke 0 None] \<and>
   attempt_ctx (policy_timeout default_executor (request_for watcher_tool)) = None \<and>
   policy_timeout default_executor (request_for echo_tool) = spec_timeout (request_for echo_tool) \<and>
   DefaultTimeout (config (NewExecutor \<lparr>MaxConcurrency = 2, DefaultTimeout = 10 * Second\<rparr>))
     = 10 * Second"
proof -
  note inst = effective_timeout[where e = default_executor and env = calm_env
      and rq = "request_for watcher_tool"
      and cfg = "\<lparr>MaxConcurrency = 2, DefaultTimeout = 10 * Second\<rparr>"]
  have mem: "Invoke 0 None \<in> set (events_of default_executor calm_env (request_for watcher_tool))"
    by (simp add: watcher_events)
  from inst mem have ctx: "None = attempt_ctx (policy_timeout default_executor (request_for watcher_tool))"
    by blast
  from inst have t: "timeout_of default_executor (request_for watcher_tool)
      = policy_timeout default_executor (request_for watcher_tool)"
    by blast
  have pt: "policy_timeout default_executor (request_for watcher_tool) = 0"
    by (simp add: policy_timeout_def request_for_def watcher_tool_def)
  from inst have d: "DefaultTimeout (config (NewExecutor \<lparr>MaxConcurrency = 2, DefaultTimeout = 10 * Second\<rparr>))
     = 10 * Second"
    by (simp add: Second_def)
  have "DefaultTimeout (config default_executor) = 60 * Second"
    by (simp add: default_executor_config)
  with effective_timeout[where e = default_executor and rq = "request_for echo_tool"]
  have "policy_timeout default_executor (request_for echo_tool) = spec_timeout (request_for echo_tool)"
    by blast
  with ctx t pt d watcher_events show ?thesis by simp
qed

text \<open>
  The engine default is not always 60 seconds: an executor configured with a default of
  10 seconds invokes a plain tool, with no override, under a 10 second deadline, where
  the resolution of spec.md gives 60 seconds.
\<close>

theorem spec_timeout_counterexample:
  "events_of ten_second_executor calm_env (request_for echo_tool) = [Invoke 0 (Some 10000000000)] \<and>
   TimeoutOverride (request_for echo_tool) = 0 \<and>
   Enhanced (Tool (request_for echo_tool)) = None \<and>
   attempt_ctx (spec_timeout (request_for echo_tool)) = Some 60000000000"
proof -
  have "events_of ten_second_executor calm_env (request_for echo_tool)
          = [Invoke 0 (Some 10000000000)]"
    using ten_second_events by (simp add: Second_def)
  moreover have "TimeoutOverride (request_for echo_tool) = 0"
    "Enhanced (Tool (request_for echo_tool)) = None"
    "attempt_ctx (spec_timeout (request_for echo_tool)) = Some 60000000000"
    by (simp_all add: spec_timeout_def attempt_ctx_def request_for_def echo_tool_def Second_def)
  ultimately show ?thesis by simp
qed

section \<open>Retryable errors\<close>

text \<open>
  Claim C6. Under a retry policy, \<open>isRetryable\<close> holds of an error exactly when the
  policy's \<open>RetryableErrors\<close> is empty or the error's message contains one of its
  patterns as a substring. When the \<open>k\<close>-th invocation returns an error that is not
  retryable, the loop stops there: no invocation has a higher index, no backoff wait is
  entered after it, and at most \<open>k + 1\<close> invocations are made. If the call reaches that
  attempt (the earlier ones failed retryably and their waits were not cancelled), the
  result is a failure carrying that error with \<open>Attempts = k + 1\<close>, and its last event is
  that invocation.
\<close>

theorem retryable_classification:
  "(isRetryable err (Some p) \<longleftrightarrow>
      RetryableErrors p = [] \<or>
      (\<exists>pat\<in>set (RetryableErrors p). \<exists>pre suf. Error_of err = pre @ pat @ suf))
   \<and> (\<forall>k err'. snd (outcome_of e rq k) = Some err' \<and>
                 \<not> isRetryable err' (retryPolicy_of e rq) \<longrightarrow>
          calls_of e env rq \<le> k + 1 \<and>
          (\<forall>j c. Invoke j c \<in> set (events_of e env rq) \<longrightarrow> j \<le> k) \<and>
          (\<forall>j. Backoff j \<in> set (events_of e env rq) \<longrightarrow> j < k))
   \<and> (\<forall>k err'. \<not> rejected e env rq \<and> int k < max_attempts (retryPolicy_of e rq) \<and>
          (\<forall>i<k. \<exists>err. snd (outcome_of e rq i) = Some err \<and>
                   isRetryable err (retryPolicy_of e rq) \<and> \<not> backoff_cancelled env i) \<and>
          snd (outcome_of e rq k) = Some err' \<and> \<not> isRetryable err' (retryPolicy_of e rq) \<longrightarrow>
        \<not> Success (result_of e env rq) \<and> Error (result_of e env rq) = Some err' \<and>
        Attempts (result_of e env rq) = int k + 1 \<and>
        events_of e env rq =
          concat (map (\<lambda>i. [Invoke i (attempt_ctx (timeout_of e rq)), Backoff i]) [0..<k])
            @ [Invoke k (attempt_ctx (timeout_of e rq))])"
proof (intro conjI allI impI)
  show "isRetryable err (Some p) \<longleftrightarrow>
      RetryableErrors p = [] \<or>
      (\<exists>pat\<in>set (RetryableErrors p). \<exists>pre suf. Error_of err = pre @ pat @ suf)"
    by (simp add: isRetryable_iff Contains_iff)
next
  fix k err'
  assume h: "snd (outcome_of e rq k) = Some err' \<and> \<not> isRetryable err' (retryPolicy_of e rq)"
  then show "calls_of e env rq \<le> k + 1"
    by (intro calls_stop) simp
  {
    fix j c
    assume "Invoke j c \<in> set (events_of e env rq)"
    from Execute_events[OF this]
    have "\<forall>i<j. \<exists>err. snd (outcome_of e rq i) = Some err \<and>
            isRetryable err (retryPolicy_of e rq) \<and> \<not> backoff_cancelled env i"
      by auto
    with h show "j \<le> k" by (metis not_le_imp_less option.inject)
  next
    fix j
    assume "Backoff j \<in> set (events_of e env rq)"
    from Execute_events[OF this]
    have "(\<exists>err. snd (outcome_of e rq j) = Some err \<and> isRetryable err (retryPolicy_of e rq)) \<and>
          (\<forall>i<j. \<exists>err. snd (outcome_of e rq i) = Some err \<and>
            isRetryable err (retryPolicy_of e rq) \<and> \<not> backoff_cancelled env i)"
      by auto
    with h show "j < k" by (metis linorder_neqE_nat option.inject)
  }
next
  fix k err'
  assume h: "\<not> rejected e env rq \<and> int k < max_attempts (retryPolicy_of e rq) \<and>
          (\<forall>i<k. \<exists>err. snd (outcome_of e rq i) = Some err \<and>
                   isRetryable err (retryPolicy_of e rq) \<and> \<not> backoff_cancelled env i) \<and>
          snd (outcome_of e rq k) = Some err' \<and> \<not> isRetryable err' (retryPolicy_of e rq)"
  then have nr: "\<not> rejected e env rq" and k: "int k < max_attempts (retryPolicy_of e rq)"
    and retry: "\<forall>i<k. \<exists>err. snd (outcome_of e rq i) = Some err \<and>
                   isRetryable err (retryPolicy_of e rq) \<and> \<not> backoff_cancelled env i"
    and err: "snd (outcome_of e rq k) = Some err'"
    and stop: "\<not> isRetryable err' (retryPolicy_of e rq) \<or>
               \<not> int k < max_attempts (retryPolicy_of e rq) - 1"
    by blast+
  note ff = Execute_final_failure[OF nr k retry err stop]
  show "\<not> Success (result_of e env rq)" by (rule ff(1))
  show "Error (result_of e env rq) = Some err'" by (rule ff(2))
  show "Attempts (result_of e env rq) = int k + 1" by (rule ff(3))
  show "events_of e env rq =
          concat (map (\<lambda>i. [Invoke i (attempt_ctx (timeout_of e rq)), Backoff i]) [0..<k])
            @ [Invoke k (attempt_ctx (timeout_of e rq))]" by (rule ff(4))
qed

theorem retryable_classification_witness:
  "isRetryable (Errorf ''upstream timeout'') (Some timeout_policy) \<and>
   calls_of default_executor calm_env (request_for broken_tool) \<le> 1 \<and>
   \<not> Success (result_of default_executor calm_env (request_for broken_tool)) \<and>
   Error (result_of default_executor calm_env (request_for broken_tool)) =
     Some (Errorf ''permission denied'') \<and>
   Attempts (result_of default_executor calm_env (request_for broken_tool)) = 1 \<and>
   events_of default_executor calm_env (request_for broken_tool) = [Invoke 0 (Some (30 * Second))]"
proof -
  let ?rq = "request_for broken_tool"
  note inst = retryable_classification[where e = default_executor and env = calm_env
      and rq = ?rq and p = timeout_policy and err = "Errorf ''upstream timeout''"]
  have "Error_of (Errorf ''upstream timeout'') = ''upstream '' @ ''timeout'' @ []" by simp
  then have "\<exists>pre suf. Error_of (Errorf ''upstream timeout'') = pre @ ''timeout'' @ suf"
    by blast
  moreover have "''timeout'' \<in> set (RetryableErrors timeout_policy)"
    by (simp add: timeout_policy_def)
  ultimately have "\<exists>pat\<in>set (RetryableErrors timeout_policy).
      \<exists>pre suf. Error_of (Errorf ''upstream timeout'') = pre @ pat @ suf"
    by blast
  with inst have first: "isRetryable (Errorf ''upstream timeout'') (Some timeout_policy)"
    by blast
  have pol: "retryPolicy_of default_executor ?rq = Some timeout_policy"
    and ctx: "attempt_ctx (timeout_of default_executor ?rq) = Some (30 * Second)"
    by (simp_all add: broken_config attempt_ctx_def Second_def)
  have fails: "snd (outcome_of default_executor ?rq 0) = Some (Errorf ''permission denied'')"
    by (simp add: broken_outcomes)
  have k: "int 0 < max_attempts (retryPolicy_of default_executor ?rq)"
    by (simp add: pol timeout_policy_max_attempts)
  from inst fails denied_not_retryable pol
  have calls: "calls_of default_executor calm_env ?rq \<le> 0 + 1"
    by (metis (no_types, lifting))
  from inst fails denied_not_retryable pol k broken_not_rejected
  have "\<not> Success (result_of default_executor calm_env ?rq) \<and>
        Error (result_of default_executor calm_env ?rq) = Some (Errorf ''permission denied'') \<and>
        Attempts (result_of default_executor calm_env ?rq) = int 0 + 1 \<and>
        events_of default_executor calm_env ?rq =
          concat (map (\<lambda>i. [Invoke i (attempt_ctx (timeout_of default_executor ?rq)), Backoff i])
            [0..<0]) @ [Invoke 0 (attempt_ctx (timeout_of default_executor ?rq))]"
    by (metis (no_types, lifting) not_less0)
  with first calls ctx show ?thesis by simp
qed

section \<open>The duration of a call\<close>

text \<open>
  Claim C7 says \<open>Duration = FinishedAt - StartedAt\<close> on every path. The returns after
  the approval check and at \<open>Finish\<close> set \<open>Duration\<close> to \<open>end.Sub(start)\<close>
  (\<open>Duration_late\<close>); the returns for a cancelled slot wait and for a validation error
  leave the field out of the literal, so it is 0 (\<open>Duration_early\<close>). For a request
  without its required field, and for a cancelled slot wait, with the clock reading 100
  on entry and 105 at the return, \<open>Duration\<close> is 0 while \<open>FinishedAt - StartedAt\<close> is 5.
\<close>

theorem early_return_duration_zero:
  "Duration (result_of default_executor calm_env incomplete_request) = 0 \<and>
   StartedAt (result_of default_executor calm_env incomplete_request) = 100 \<and>
   FinishedAt (result_of default_executor calm_env incomplete_request) = 105 \<and>
   Sub (FinishedAt (result_of default_executor calm_env incomplete_request))
       (StartedAt (result_of default_executor calm_env incomplete_request)) = 5 \<and>
   Duration (result_of default_executor cancelled_env (request_for echo_tool)) = 0 \<and>
   Sub (FinishedAt (result_of default_executor cancelled_env (request_for echo_tool)))
       (StartedAt (result_of default_executor cancelled_env (request_for echo_tool))) = 5"
proof -
  have calm: "\<not> slot_cancelled calm_env" and gone: "slot_cancelled cancelled_env"
    by (simp_all add: calm_env_def cancelled_env_def)
  have clock: "now_start calm_env = 100" "now_end calm_env = 105"
    "now_start cancelled_env = 100" "now_end cancelled_env = 105"
    by (simp_all add: calm_env_def cancelled_env_def)
  have sub: "Sub 105 100 = 5" by (simp add: Sub_def maxDuration_def minDuration_def)
  show ?thesis
    by (simp add: Execute_invalid[OF calm incomplete_invalid] Execute_slot_cancelled[OF gone]
        clock sub)
qed

section \<open>Batches\<close>

text \<open>
  Claim C5. \<open>ExecuteBatch\<close> returns as many results as there are requests, and the result
  at index \<open>i\<close> is the result of executing \<open>requests[i]\<close>, whatever the priorities and
  in whatever order the goroutines store their results (\<open>completion\<close> may permute the
  started goroutines in any way). The priority, 0 for a tool without the extended
  contract, only orders the dispatch: \<open>dispatch_order\<close> is a permutation of the items,
  sorted by descending priority, and items of equal priority keep their order.
\<close>

theorem ExecuteBatch_aligned:
  assumes "mset (completion (dispatch_order requests)) = mset (dispatch_order requests)"
  shows "length (ExecuteBatch e envs completion requests) = length requests
    \<and> (\<forall>i<length requests.
          ExecuteBatch e envs completion requests ! i
            = Some (result_of e (envs i) (requests ! i)))
    \<and> mset (dispatch_order requests) = mset (batch_items requests)
    \<and> sorted_wrt (\<lambda>a b. priority a \<ge> priority b) (dispatch_order requests)
    \<and> (\<forall>p. filter (\<lambda>it. priority it = p) (dispatch_order requests)
             = filter (\<lambda>it. priority it = p) (batch_items requests))
    \<and> map idx (batch_items requests) = [0..<length requests]
    \<and> map req (batch_items requests) = requests
    \<and> map priority (batch_items requests)
        = map (\<lambda>r. case Enhanced (Tool r) of None \<Rightarrow> 0 | Some et \<Rightarrow> Priority et) requests"
proof (intro conjI allI impI)
  let ?g = "\<lambda>item. Some (result_of e (envs (idx item)) (req item))"
  let ?h = "\<lambda>i. Some (result_of e (envs i) (requests ! i))"
  let ?order = "completion (dispatch_order requests)"
  from assms have "set ?order = set (dispatch_order requests)" by (rule mset_eq_setD)
  also have "\<dots> = set (batch_items requests)"
    using dispatch_order_mset[of requests] by (rule mset_eq_setD)
  finally have set_eq: "set ?order = set (batch_items requests)" .
  show "length (ExecuteBatch e envs completion requests) = length requests"
    by (simp add: ExecuteBatch_def Let_def fold_store_length)
  fix i assume i: "i < length requests"
  have gh: "\<forall>it\<in>set ?order. ?g it = ?h (idx it)"
    using batch_items_member[of _ requests] by (simp add: set_eq)
  from i have len: "i < length (replicate (length requests) (None :: ExecuteResult option))"
    by simp
  from i have mem: "i \<in> idx ` set ?order"
    by (simp add: set_eq batch_items_idx_image)
  from i have "requests \<noteq> []" by auto
  with fold_store_nth[where g = ?g and h = ?h, OF gh len] mem
  show "ExecuteBatch e envs completion requests ! i = Some (result_of e (envs i) (requests ! i))"
    by (simp add: ExecuteBatch_def Let_def)
next
  show "mset (dispatch_order requests) = mset (batch_items requests)"
    by (rule dispatch_order_mset)
  show "sorted_wrt (\<lambda>a b. priority a \<ge> priority b) (dispatch_order requests)"
    by (rule dispatch_order_sorted)
  show "\<And>p. filter (\<lambda>it. priority it = p) (dispatch_order requests)
             = filter (\<lambda>it. priority it = p) (batch_items requests)"
    by (rule dispatch_order_stable)
  show "map idx (batch_items requests) = [0..<length requests]"
    "map req (batch_items requests) = requests"
    "map priority (batch_items requests)
        = map (\<lambda>r. case Enhanced (Tool r) of None \<Rightarrow> 0 | Some et \<Rightarrow> Priority et) requests"
    by (rule batch_items_fields)+
qed

theorem ExecuteBatch_aligned_witness:
  "map idx (dispatch_order example_batch) = [1, 2, 0] \<and>
   ExecuteBatch default_executor (\<lambda>i. calm_env) rev example_batch =
     [Some (result_of default_executor calm_env (request_for echo_tool)),
      Some (result_of default_executor calm_env (request_for broken_tool)),
      Some (result_of default_executor calm_env (request_for gated_tool))]"
proof -
  have perm: "mset (rev (dispatch_order example_batch)) = mset (dispatch_order example_batch)"
    by simp
  note inst = ExecuteBatch_aligned[where completion = rev and requests = example_batch
      and e = default_executor and envs = "\<lambda>i. calm_env", OF perm]
  have len: "length example_batch = 3" by (simp add: example_batch_def)
  from inst len have l: "length (ExecuteBatch default_executor (\<lambda>i. calm_env) rev example_batch) = 3"
    by simp
  from inst len have n: "\<forall>i<3. ExecuteBatch default_executor (\<lambda>i. calm_env) rev example_batch ! i
            = Some (result_of default_executor calm_env (example_batch ! i))"
    by simp
  have "ExecuteBatch default_executor (\<lambda>i. calm_env) rev example_batch =
     [Some (result_of default_executor calm_env (example_batch ! 0)),
      Some (result_of default_executor calm_env (example_batch ! 1)),
      Some (result_of default_executor calm_env (example_batch ! 2))]"
  proof (rule nth_equalityI)
    show "length (ExecuteBatch default_executor (\<lambda>i. calm_env) rev example_batch) =
      length [Some (result_of default_executor calm_env (example_batch ! 0)),
      Some (result_of default_executor calm_env (example_batch ! 1)),
      Some (result_of default_executor calm_env (example_batch ! 2))]"
      using l by simp
  next
    fix i assume "i < length (ExecuteBatch default_executor (\<lambda>i. calm_env) rev example_batch)"
    with l have "i < 3" by simp
    then consider "i = 0" | "i = 1" | "i = 2" by linarith
    then show "ExecuteBatch default_executor (\<lambda>i. calm_env) rev example_batch ! i =
      [Some (result_of default_executor calm_env (example_batch ! 0)),
      Some (result_of default_executor calm_env (example_batch ! 1)),
      Some (result_of default_executor calm_env (example_batch ! 2))] ! i"
      using n by cases simp_all
  qed
  then have "ExecuteBatch default_executor (\<lambda>i. calm_env) rev example_batch =
     [Some (result_of default_executor calm_env (request_for echo_tool)),
      Some (result_of default_executor calm_env (request_for broken_tool)),
      Some (result_of default_executor calm_env (request_for gated_tool))]"
    by (simp add: example_batch_def)
  with example_batch_dispatch show ?thesis by simp
qed

section \<open>Registry.Create\<close>

text \<open>
  Claim C8, with the factory's result passed through. \<open>Create\<close> returns what the factory
  registered under the name returns for the given configuration, a tool or an error; with
  no factory it returns the instance registered under the name, whatever the
  configuration; with neither it returns \<open>ToolNotFoundError\<close> naming the name. The registry
  is left as it was. So the result is that not-found error exactly when neither is
  registered or the registered factory itself returns it.
\<close>

theorem Create_resolution:
  "(case factories r name of
      Some factory \<Rightarrow> fst (Create r name cfg) = factory cfg
    | None \<Rightarrow>
        (case instances r name of
           Some instance \<Rightarrow> fst (Create r name cfg) = (Some instance, None)
         | None \<Rightarrow> fst (Create r name cfg) = (None, Some (ToolNotFoundError name))))
   \<and> snd (Create r name cfg) = r
   \<and> Error_of (ToolNotFoundError name) = ''tool not found: '' @ name
   \<and> (fst (Create r name cfg) = (None, Some (ToolNotFoundError name)) \<longleftrightarrow>
        (case factories r name of
           Some factory \<Rightarrow> factory cfg = (None, Some (ToolNotFoundError name))
         | None \<Rightarrow> instances r name = None))"
proof (cases "factories r name")
  case (Some factory)
  then have "Create r name cfg = (factory cfg, r)"
    by (simp add: Create_def)
  with Some show ?thesis by simp
next
  case no_factory: None
  show ?thesis
  proof (cases "instances r name")
    case (Some tool)
    with no_factory have "Create r name cfg = ((Some tool, None), r)"
      by (simp add: Create_def)
    with no_factory Some show ?thesis by simp
  next
    case None
    with no_factory have "Create r name cfg = ((None, Some (ToolNotFoundError name)), r)"
      by (simp add: Create_def)
    with no_factory None show ?thesis by simp
  qed
qed

theorem Create_resolution_witness:
  "fst (Create (RegisterFactory (RegisterInstance NewRegistry echo_tool) ''echo'' echo_factory)
          ''echo'' (Some [''name'' \<mapsto> AString ''echo2'']))
     = (Some (echo_tool\<lparr>Name := ''echo2''\<rparr>), None) \<and>
   fst (Create (RegisterInstance NewRegistry echo_tool) ''echo''
          (Some [''name'' \<mapsto> AString ''echo2''])) = (Some echo_tool, None) \<and>
   fst (Create NewRegistry ''echo'' None) = (None, Some (ToolNotFoundError ''echo'')) \<and>
   snd (Create (RegisterInstance NewRegistry echo_tool) ''echo'' None)
     = RegisterInstance NewRegistry echo_tool"
proof -
  let ?both = "RegisterFactory (RegisterInstance NewRegistry echo_tool) ''echo'' echo_factory"
  let ?inst = "RegisterInstance NewRegistry echo_tool"
  let ?cfg = "Some [''name'' \<mapsto> AString ''echo2'']"
  have f: "factories ?both ''echo'' = Some echo_factory"
    by (simp add: RegisterFactory_def)
  have i: "factories ?inst ''echo'' = None" "instances ?inst ''echo'' = Some echo_tool"
    by (simp_all add: RegisterInstance_def NewRegistry_def echo_tool_def)
  have n: "factories NewRegistry ''echo'' = None" "instances NewRegistry ''echo'' = None"
    by (simp_all add: NewRegistry_def)
  have prod: "echo_factory ?cfg = (Some (echo_tool\<lparr>Name := ''echo2''\<rparr>), None)"
    by (simp add: echo_factory_def)
  from Create_resolution[where r = ?both and name = "''echo''" and cfg = ?cfg] f prod
  have a: "fst (Create ?both ''echo'' ?cfg) = (Some (echo_tool\<lparr>Name := ''echo2''\<rparr>), None)"
    by simp
  from Create_resolution[where r = ?inst and name = "''echo''" and cfg = ?cfg] i
  have b: "fst (Create ?inst ''echo'' ?cfg) = (Some echo_tool, None)"
    by simp
  from Create_resolution[where r = NewRegistry and name = "''echo''" and cfg = None] n
  have c: "fst (Create NewRegistry ''echo'' None) = (None, Some (ToolNotFoundError ''echo''))"
    by simp
  from Create_resolution[where r = ?inst and name = "''echo''" and cfg = None]
  have d: "snd (Create ?inst ''echo'' None) = ?inst"
    by simp
  from a b c d show ?thesis by simp
qed

text \<open>
  A not-found error does not imply that nothing is registered: a registered factory that
  fails with \<open>ToolNotFoundError\<close> makes \<open>Create\<close> return that error.
\<close>

theorem Create_not_found_counterexample:
  "fst (Create (RegisterFactory NewRegistry ''ghost'' failing_factory) ''ghost'' None)
     = (None, Some (ToolNotFoundError ''ghost'')) \<and>
   factories (RegisterFactory NewRegistry ''ghost'' failing_factory) ''ghost''
     = Some failing_factory"
  by (simp add: Create_def ghost_registry_factories failing_factory_def)

section \<open>Success and error\<close>

text \<open>
  Claim C10. On every path through \<open>Execute\<close> (the three early returns and the attempt
  loop) the result has \<open>Success\<close> true exactly when its \<open>Error\<close> is nil.
\<close>

theorem Execute_success_iff_no_error:
  "Success (fst (Execute e env rq)) \<longleftrightarrow> Error (fst (Execute e env rq)) = None"
proof (cases rule: Execute_cases[where env = env and rq = rq and e = e])
  case slot
  then show ?thesis by (simp add: Execute_slot_cancelled)
next
  case (invalid err)
  then show ?thesis by (simp add: Execute_invalid)
next
  case denied
  then show ?thesis by (simp add: Execute_denied)
next
  case (loop out err n tr)
  then show ?thesis by (simp add: Execute_loop)
qed

theorem Execute_success_iff_no_error_witness:
  "Success (result_of default_executor calm_env (request_for flaky_tool)) \<and>
   Error (result_of default_executor calm_env (request_for flaky_tool)) = None \<and>
   Error (result_of default_executor calm_env incomplete_request)
     = Some (Errorf ''missing required field: input'') \<and>
   \<not> Success (result_of default_executor calm_env incomplete_request)"
proof -
  from Execute_success_iff_no_error[of default_executor calm_env "request_for flaky_tool"]
    flaky_success
  have a: "Error (result_of default_executor calm_env (request_for flaky_tool)) = None"
    by simp
  from Execute_success_iff_no_error[of default_executor calm_env incomplete_request]
    incomplete_error
  have b: "\<not> Success (result_of default_executor calm_env incomplete_request)"
    by simp
  from a b flaky_success incomplete_error show ?thesis by simp
qed

end
